theory Spec2Isabelle
  imports Main "HOL-Library.AList"
begin

section \<open>Data model (shared/schema.ts)\<close>

text \<open>
  A \<open>Date\<close> is its \<open>getTime()\<close> value, milliseconds since the epoch. Every
  \<open>new Date()\<close> of the source is a parameter of the operation that reads the clock, so
  that two readings may return the same millisecond. Ids are JavaScript numbers; the
  counters start at 1 and only ever increase by one, so they are modelled as unbounded
  integers.
\<close>

type_synonym date = int

record User =
  u_id :: int
  username :: string
  isOnline :: bool
  lastSeen :: date

record Chat =
  c_id :: int
  c_name :: "string option"
  c_type :: string
  createdBy :: int
  createdAt :: date

record ChatMember =
  cm_id :: int
  cm_chatId :: int
  cm_userId :: int
  joinedAt :: date

record Message =
  m_id :: int
  m_chatId :: int
  senderId :: int
  content :: string
  sentAt :: date

text \<open>\<open>ChatMember & { user: User }\<close>, \<open>Message & { sender: User }\<close> and
  \<open>ChatWithMembers\<close> extend the row types by the joined fields.\<close>

record ChatMemberWithUser = ChatMember +
  user :: User

record MessageWithSender = Message +
  sender :: User

record ChatWithMembers = Chat +
  members :: "ChatMemberWithUser list"
  lastMessage :: "MessageWithSender option"
  unreadCount :: "int option"

text \<open>The insert types: \<open>InsertUser\<close>, \<open>InsertChat & { createdBy }\<close>,
  \<open>InsertMessage & { senderId }\<close>.\<close>

record InsertUser =
  iu_username :: string

record InsertChat =
  ic_name :: "string option"
  ic_type :: string
  ic_createdBy :: int

record InsertMessage =
  im_chatId :: int
  im_content :: string
  im_senderId :: int

section \<open>The in-memory store (server/storage.ts, class MemStorage)\<close>

text \<open>
  A JavaScript \<open>Map\<close> iterates in insertion order, and \<open>set\<close> on a key that is
  present replaces the value in place. An association list with \<open>AList.update\<close> does
  exactly that; \<open>map_of\<close> is \<open>Map.get\<close> and the values are read in list order.
\<close>

type_synonym 'v js_map = "(int \<times> 'v) list"

definition map_get :: "'v js_map \<Rightarrow> int \<Rightarrow> 'v option" where
  "map_get m k = map_of m k"

definition map_set :: "int \<Rightarrow> 'v \<Rightarrow> 'v js_map \<Rightarrow> 'v js_map" where
  "map_set k v m = AList.update k v m"

definition map_values :: "'v js_map \<Rightarrow> 'v list" where
  "map_values m = map snd m"

record MemStorage =
  users :: "User js_map"
  chats :: "Chat js_map"
  chatMembers :: "ChatMember js_map"
  messages :: "Message js_map"
  currentUserId :: int
  currentChatId :: int
  currentChatMemberId :: int
  currentMessageId :: int

definition new_MemStorage :: MemStorage where
  "new_MemStorage =
     \<lparr>users = [], chats = [], chatMembers = [], messages = [],
      currentUserId = 1, currentChatId = 1, currentChatMemberId = 1, currentMessageId = 1\<rparr>"

subsection \<open>Users\<close>

definition getUser :: "int \<Rightarrow> MemStorage \<Rightarrow> User option" where
  "getUser ident s = map_get (users s) ident"

definition getUserByUsername :: "string \<Rightarrow> MemStorage \<Rightarrow> User option" where
  "getUserByUsername name s = find (\<lambda>usr. username usr = name) (map_values (users s))"

definition createUser :: "date \<Rightarrow> InsertUser \<Rightarrow> MemStorage \<Rightarrow> User \<times> MemStorage" where
  "createUser now insertUser s =
     (let ident = currentUserId s;
          usr = \<lparr>u_id = ident, username = iu_username insertUser,
                 isOnline = True, lastSeen = now\<rparr>
      in (usr, s\<lparr>users := map_set ident usr (users s), currentUserId := ident + 1\<rparr>))"

definition updateUserOnlineStatus :: "date \<Rightarrow> int \<Rightarrow> bool \<Rightarrow> MemStorage \<Rightarrow> MemStorage" where
  "updateUserOnlineStatus now userId online s =
     (case map_get (users s) userId of
        None \<Rightarrow> s
      | Some usr \<Rightarrow>
          s\<lparr>users := map_set userId (usr\<lparr>isOnline := online, lastSeen := now\<rparr>) (users s)\<rparr>)"

definition getOnlineUsers :: "MemStorage \<Rightarrow> User list" where
  "getOnlineUsers s = filter (\<lambda>usr. isOnline usr) (map_values (users s))"

subsection \<open>Members and messages\<close>

definition addChatMember :: "date \<Rightarrow> int \<Rightarrow> int \<Rightarrow> MemStorage \<Rightarrow> MemStorage" where
  "addChatMember now chatId userId s =
     (let ident = currentChatMemberId s;
          member = \<lparr>cm_id = ident, cm_chatId = chatId, cm_userId = userId, joinedAt = now\<rparr>
      in s\<lparr>chatMembers := map_set ident member (chatMembers s),
           currentChatMemberId := ident + 1\<rparr>)"

text \<open>
  \<open>members.map(member => ({...member, user: this.users.get(member.userId)!}))
  .filter(member => member.user)\<close>: the \<open>!\<close> is a compile-time assertion only, so the
  joined user may be \<open>undefined\<close> until the filter removes those entries.
\<close>

definition with_user :: "MemStorage \<Rightarrow> ChatMember \<Rightarrow> ChatMemberWithUser option" where
  "with_user s member =
     (case map_get (users s) (cm_userId member) of
        None \<Rightarrow> None
      | Some u \<Rightarrow> Some \<lparr>cm_id = cm_id member, cm_chatId = cm_chatId member,
                        cm_userId = cm_userId member, joinedAt = joinedAt member, user = u\<rparr>)"

definition getChatMembers :: "int \<Rightarrow> MemStorage \<Rightarrow> ChatMemberWithUser list" where
  "getChatMembers chatId s =
     (let rows = filter (\<lambda>member. cm_chatId member = chatId) (map_values (chatMembers s))
      in List.map_filter (with_user s) rows)"

definition getMessage :: "int \<Rightarrow> MemStorage \<Rightarrow> Message option" where
  "getMessage ident s = map_get (messages s) ident"

text \<open>
  \<open>Array.prototype.slice(0, end)\<close>: a negative \<open>end\<close> counts from the end of the
  array, and the result is clamped to the array.
\<close>

definition slice0 :: "int \<Rightarrow> 'a list \<Rightarrow> 'a list" where
  "slice0 e xs =
     (let len = int (length xs);
          final = (if e < 0 then max (len + e) 0 else min e len)
      in take (nat final) xs)"

definition with_sender :: "MemStorage \<Rightarrow> Message \<Rightarrow> MessageWithSender option" where
  "with_sender s message =
     (case map_get (users s) (senderId message) of
        None \<Rightarrow> None
      | Some u \<Rightarrow> Some \<lparr>m_id = m_id message, m_chatId = m_chatId message,
                        senderId = senderId message, content = content message,
                        sentAt = sentAt message, sender = u\<rparr>)"

text \<open>
  \<open>.sort((a, b) => b.sentAt.getTime() - a.sentAt.getTime())\<close> sorts by descending
  sent time. \<open>Array.prototype.sort\<close> is stable (ECMAScript 2019), as is
  \<open>sort_key\<close>; descending order is ascending order of the negated key. The \<open>limit\<close>
  parameter defaults to 50 when it is not given.
\<close>

definition getChatMessages :: "int \<Rightarrow> int option \<Rightarrow> MemStorage \<Rightarrow> MessageWithSender list" where
  "getChatMessages chatId limit s =
     (let lim = (case limit of None \<Rightarrow> 50 | Some l \<Rightarrow> l);
          chatMessages =
            rev (slice0 lim
              (sort_key (\<lambda>message. - sentAt message)
                (filter (\<lambda>message. m_chatId message = chatId) (map_values (messages s)))))
      in List.map_filter (with_sender s) chatMessages)"

definition createMessage :: "date \<Rightarrow> InsertMessage \<Rightarrow> MemStorage \<Rightarrow> Message \<times> MemStorage" where
  "createMessage now message s =
     (let ident = currentMessageId s;
          newMessage = \<lparr>m_id = ident, m_chatId = im_chatId message,
                        senderId = im_senderId message, content = im_content message,
                        sentAt = now\<rparr>
      in (newMessage,
          s\<lparr>messages := map_set ident newMessage (messages s), currentMessageId := ident + 1\<rparr>))"

definition getUnreadMessageCount :: "int \<Rightarrow> int \<Rightarrow> MemStorage \<Rightarrow> int" where
  "getUnreadMessageCount chatId userId s = 0"

subsection \<open>Chats\<close>

definition getChat :: "int \<Rightarrow> MemStorage \<Rightarrow> Chat option" where
  "getChat ident s = map_get (chats s) ident"

definition getChatWithMembers :: "int \<Rightarrow> MemStorage \<Rightarrow> ChatWithMembers option" where
  "getChatWithMembers ident s =
     (case map_get (chats s) ident of
        None \<Rightarrow> None
      | Some chat \<Rightarrow>
          (let mems = getChatMembers ident s;
               msgs = getChatMessages ident (Some 1) s;
               lastMsg = (case msgs of [] \<Rightarrow> None | m # _ \<Rightarrow> Some m)
           in Some \<lparr>c_id = c_id chat, c_name = c_name chat, c_type = c_type chat,
                    createdBy = createdBy chat, createdAt = createdAt chat,
                    members = mems, lastMessage = lastMsg, unreadCount = Some 0\<rparr>))"

definition getUserChats :: "int \<Rightarrow> MemStorage \<Rightarrow> ChatWithMembers list" where
  "getUserChats userId s =
     (let userChatMembers =
            filter (\<lambda>member. cm_userId member = userId) (map_values (chatMembers s))
      in List.map_filter (\<lambda>member. getChatWithMembers (cm_chatId member) s) userChatMembers)"

text \<open>\<open>createChat\<close> reads the clock twice: for \<open>createdAt\<close> and, inside
  \<open>addChatMember\<close>, for the creator's \<open>joinedAt\<close>.\<close>

definition createChat :: "date \<Rightarrow> date \<Rightarrow> InsertChat \<Rightarrow> MemStorage \<Rightarrow> Chat \<times> MemStorage" where
  "createChat now joined chat s =
     (let ident = currentChatId s;
          newChat = \<lparr>c_id = ident, c_name = ic_name chat, c_type = ic_type chat,
                     createdBy = ic_createdBy chat, createdAt = now\<rparr>;
          s1 = s\<lparr>chats := map_set ident newChat (chats s), currentChatId := ident + 1\<rparr>
      in (newChat, addChatMember joined ident (ic_createdBy chat) s1))"

section \<open>The request handlers (registerRoutes)\<close>

text \<open>
  A handler takes the parsed request and the store and returns the response and the
  store. A response is the JSON payload, or the status and message of the error branch.
  A required body field that is missing or of the wrong JSON type is \<open>None\<close>: the zod
  schema rejects it and the handler's \<open>catch\<close> answers 400. An optional body field is
  absent, malformed (of the wrong JSON type, which the schema rejects as well) or present.
  A handler that reads the clock more than once takes the readings as a function of their
  position.
\<close>

datatype 'a optional_field = Absent | Malformed | Present 'a

type_synonym http_error = "int \<times> string"

definition postUsers ::
  "date \<Rightarrow> string option \<Rightarrow> MemStorage \<Rightarrow> (http_error + User) \<times> MemStorage" where
  "postUsers now body s =
     (case body of
        None \<Rightarrow> (Inl (400, ''Invalid user data''), s)
      | Some name \<Rightarrow>
          (case getUserByUsername name s of
             Some existingUser \<Rightarrow> (Inl (400, ''Username already taken''), s)
           | None \<Rightarrow>
               (let (usr, s') = createUser now \<lparr>iu_username = name\<rparr> s in (Inr usr, s'))))"

definition putUserStatus ::
  "date \<Rightarrow> int \<Rightarrow> bool \<Rightarrow> MemStorage \<Rightarrow> (http_error + bool) \<times> MemStorage" where
  "putUserStatus now userId online s = (Inr True, updateUserOnlineStatus now userId online s)"

text \<open>The body of POST /api/chats. The name may be left out or be \<open>null\<close> (both are
  \<open>Absent\<close>, the chat then has no name); the member ids may be left out.\<close>

record ChatBody =
  cb_name :: "string optional_field"
  cb_type :: "string option"
  cb_createdBy :: "int option"
  cb_memberIds :: "int list optional_field"

text \<open>The loop over \<open>memberIds\<close>. The clock is read inside \<open>addChatMember\<close> only, so
  a skipped id does not take a reading.\<close>

fun addMembers :: "(nat \<Rightarrow> date) \<Rightarrow> nat \<Rightarrow> int \<Rightarrow> int \<Rightarrow> int list \<Rightarrow> MemStorage \<Rightarrow> MemStorage" where
  "addMembers clock i chatId creator [] s = s"
| "addMembers clock i chatId creator (memberId # rest) s =
     (if memberId \<noteq> creator
      then addMembers clock (Suc i) chatId creator rest
             (addChatMember (clock i) chatId memberId s)
      else addMembers clock i chatId creator rest s)"

definition postChats ::
  "(nat \<Rightarrow> date) \<Rightarrow> ChatBody \<Rightarrow> MemStorage \<Rightarrow>
     (http_error + ChatWithMembers option) \<times> MemStorage" where
  "postChats clock body s =
     (case (cb_type body, cb_createdBy body) of
        (Some ty, Some creator) \<Rightarrow>
          (if cb_name body = Malformed \<or> cb_memberIds body = Malformed
           then (Inl (400, ''Invalid chat data''), s)
           else
             (let (chat, s1) =
                    createChat (clock 0) (clock 1)
                      \<lparr>ic_name = (case cb_name body of Present n \<Rightarrow> Some n | _ \<Rightarrow> None),
                       ic_type = ty, ic_createdBy = creator\<rparr> s;
                  s2 = (case cb_memberIds body of
                          Present memberIds \<Rightarrow>
                            addMembers clock 2 (c_id chat) creator memberIds s1
                        | _ \<Rightarrow> s1)
              in (Inr (getChatWithMembers (c_id chat) s2), s2)))
      | _ \<Rightarrow> (Inl (400, ''Invalid chat data''), s))"

record MessageBody =
  mb_chatId :: "int option"
  mb_content :: "string option"
  mb_senderId :: "int option"

definition postMessages ::
  "date \<Rightarrow> MessageBody \<Rightarrow> MemStorage \<Rightarrow> (http_error + Message) \<times> MemStorage" where
  "postMessages now body s =
     (case (mb_chatId body, mb_content body, mb_senderId body) of
        (Some chatId, Some text, Some sndr) \<Rightarrow>
          (let (message, s') =
                 createMessage now
                   \<lparr>im_chatId = chatId, im_content = text, im_senderId = sndr\<rparr> s
           in (Inr message, s'))
      | _ \<Rightarrow> (Inl (400, ''Invalid message data''), s))"

text \<open>POST /api/chats/direct, the find-or-create of a direct chat. The predicate is the
  callback of \<open>user1Chats.find\<close>.\<close>

definition is_direct_with :: "int \<Rightarrow> ChatWithMembers \<Rightarrow> bool" where
  "is_direct_with userId2 chat \<longleftrightarrow>
     c_type chat = ''direct'' \<and> length (members chat) = 2 \<and>
     list_ex (\<lambda>member. cm_userId member = userId2) (members chat)"

definition postChatsDirect ::
  "(nat \<Rightarrow> date) \<Rightarrow> int \<Rightarrow> int \<Rightarrow> MemStorage \<Rightarrow>
     (http_error + ChatWithMembers option) \<times> MemStorage" where
  "postChatsDirect clock userId1 userId2 s =
     (let user1Chats = getUserChats userId1 s
      in case find (is_direct_with userId2) user1Chats of
           Some existingChat \<Rightarrow> (Inr (Some existingChat), s)
         | None \<Rightarrow>
             (let (chat, s1) =
                    createChat (clock 0) (clock 1)
                      \<lparr>ic_name = None, ic_type = ''direct'', ic_createdBy = userId1\<rparr> s;
                  s2 = addChatMember (clock 2) (c_id chat) userId2 s1
              in (Inr (getChatWithMembers (c_id chat) s2), s2)))"

section \<open>Invariants of the store\<close>

text \<open>
  \<open>ids_fresh\<close>: every key is below its counter and every row is stored under its own id.
  Every operation of the store keeps it, whatever its arguments.
\<close>

definition ids_fresh :: "MemStorage \<Rightarrow> bool" where
  "ids_fresh s \<longleftrightarrow>
     (\<forall>(k, v) \<in> set (users s). u_id v = k \<and> k < currentUserId s) \<and>
     (\<forall>(k, v) \<in> set (chats s). c_id v = k \<and> k < currentChatId s) \<and>
     (\<forall>(k, v) \<in> set (chatMembers s). cm_id v = k \<and> k < currentChatMemberId s) \<and>
     (\<forall>(k, v) \<in> set (messages s). m_id v = k \<and> k < currentMessageId s)"

text \<open>
  \<open>members_grouped\<close>: every membership row belongs to a chat that exists, and the rows
  are in the order of their chats. The handlers keep it, because they add members only
  to the chat they have just created.
\<close>

definition members_grouped :: "MemStorage \<Rightarrow> bool" where
  "members_grouped s \<longleftrightarrow>
     (\<forall>member \<in> set (map_values (chatMembers s)). map_get (chats s) (cm_chatId member) \<noteq> None) \<and>
     sorted (map cm_chatId (map_values (chatMembers s)))"

definition store_inv :: "MemStorage \<Rightarrow> bool" where
  "store_inv s \<longleftrightarrow> ids_fresh s \<and> members_grouped s"

text \<open>The states the handlers can bring a new store to.\<close>

inductive reachable :: "MemStorage \<Rightarrow> bool" where
  reach_new: "reachable new_MemStorage"
| reach_postUsers: "reachable s \<Longrightarrow> reachable (snd (postUsers now body s))"
| reach_putUserStatus: "reachable s \<Longrightarrow> reachable (snd (putUserStatus now userId online s))"
| reach_postChats: "reachable s \<Longrightarrow> reachable (snd (postChats clock cbody s))"
| reach_postMessages: "reachable s \<Longrightarrow> reachable (snd (postMessages now mbody s))"
| reach_postChatsDirect: "reachable s \<Longrightarrow> reachable (snd (postChatsDirect clock userId1 userId2 s))"

text \<open>
  The ids of the direct chats between two users, read through \<open>getChatWithMembers\<close>:
  those whose member set is the two users, and among them those with exactly two members,
  which are the ones the search of POST /api/chats/direct accepts.
\<close>

definition is_between :: "int \<Rightarrow> int \<Rightarrow> ChatWithMembers \<Rightarrow> bool" where
  "is_between a b chat \<longleftrightarrow>
     c_type chat = ''direct'' \<and> set (map cm_userId (members chat)) = {a, b}"

definition directChatsBetween :: "int \<Rightarrow> int \<Rightarrow> MemStorage \<Rightarrow> int list" where
  "directChatsBetween a b s =
     filter (\<lambda>k. case getChatWithMembers k s of
                   None \<Rightarrow> False
                 | Some chat \<Rightarrow> is_between a b chat)
       (map fst (chats s))"

definition twoMemberDirectChats :: "int \<Rightarrow> int \<Rightarrow> MemStorage \<Rightarrow> int list" where
  "twoMemberDirectChats a b s =
     filter (\<lambda>k. case getChatWithMembers k s of
                   None \<Rightarrow> False
                 | Some chat \<Rightarrow> is_between a b chat \<and> length (members chat) = 2)
       (map fst (chats s))"

section \<open>Example stores\<close>

text \<open>Two users register and open a direct chat; in \<open>dangling_store\<close> the chat has a
  third membership row whose user does not exist.\<close>

definition alice :: User where
  "alice = \<lparr>u_id = 1, username = ''alice'', isOnline = True, lastSeen = 10\<rparr>"

definition bob :: User where
  "bob = \<lparr>u_id = 2, username = ''bob'', isOnline = True, lastSeen = 20\<rparr>"

definition demo_store :: MemStorage where
  "demo_store =
     (let s1 = snd (postUsers 10 (Some ''alice'') new_MemStorage);
          s2 = snd (postUsers 20 (Some ''bob'') s1)
      in snd (postChatsDirect (\<lambda>i. 30 + int i) 1 2 s2))"

definition dangling_store :: MemStorage where
  "dangling_store = addChatMember 40 1 99 demo_store"

text \<open>A request to post a message whose content is a single space.\<close>

definition blank_body :: MessageBody where
  "blank_body = \<lparr>mb_chatId = Some 1, mb_content = Some '' '', mb_senderId = Some 1\<rparr>"

text \<open>Auxiliary notions for the proofs: the chat row that \<open>createChat\<close> builds, and
  the state in which a chat exists and no membership row belongs to a later chat.\<close>

definition newChat :: "date \<Rightarrow> InsertChat \<Rightarrow> MemStorage \<Rightarrow> Chat" where
  "newChat now chat s = \<lparr>c_id = currentChatId s, c_name = ic_name chat, c_type = ic_type chat,
                     createdBy = ic_createdBy chat, createdAt = now\<rparr>"

definition newest_chat :: "int \<Rightarrow> MemStorage \<Rightarrow> bool" where
  "newest_chat c s \<longleftrightarrow>
     map_get (chats s) c \<noteq> None \<and>
     (\<forall>member \<in> set (map_values (chatMembers s)). cm_chatId member \<le> c)"

text \<open>The store that the creating branch of POST /api/chats/direct leaves, the chat
  it answers with when both users exist, and the chat id of a response.\<close>

definition direct_created :: "(nat \<Rightarrow> date) \<Rightarrow> int \<Rightarrow> int \<Rightarrow> MemStorage \<Rightarrow> MemStorage" where
  "direct_created clock a b s =
     addChatMember (clock 2) (currentChatId s) b
       (snd (createChat (clock 0) (clock 1)
              \<lparr>ic_name = None, ic_type = ''direct'', ic_createdBy = a\<rparr> s))"

definition new_direct_view :: "(nat \<Rightarrow> date) \<Rightarrow> int \<Rightarrow> int \<Rightarrow> User \<Rightarrow> User \<Rightarrow> MemStorage \<Rightarrow> ChatWithMembers" where
  "new_direct_view clock a b usa usb s =
     \<lparr>c_id = currentChatId s, c_name = None, c_type = ''direct'', createdBy = a,
      createdAt = clock 0,
      members =
        [\<lparr>cm_id = currentChatMemberId s, cm_chatId = currentChatId s, cm_userId = a,
          joinedAt = clock 1, user = usa\<rparr>,
         \<lparr>cm_id = currentChatMemberId s + 1, cm_chatId = currentChatId s, cm_userId = b,
          joinedAt = clock 2, user = usb\<rparr>],
      lastMessage = (case getChatMessages (currentChatId s) (Some 1) s of
                       [] \<Rightarrow> None | m # _ \<Rightarrow> Some m),
      unreadCount = Some 0\<rparr>"

definition chat_id_of :: "(http_error + ChatWithMembers option) \<Rightarrow> int option" where
  "chat_id_of r = (case r of Inr (Some v) \<Rightarrow> Some (c_id v) | _ \<Rightarrow> None)"

text \<open>The store in which alice and bob have registered and no chat exists.\<close>

definition users_store :: MemStorage where
  "users_store = snd (postUsers 20 (Some ''bob'') (snd (postUsers 10 (Some ''alice'') new_MemStorage)))"

text \<open>
  \<open>dup_store\<close>: alice creates a direct chat through POST /api/chats and names bob
  twice in \<open>memberIds\<close>, so chat 1 has three membership rows and member set alice and
  bob. \<open>ghost_store\<close>: bob is added twice, through the store, to chat 99, which does not
  exist.
\<close>

definition dup_store :: MemStorage where
  "dup_store =
     snd (postChats (\<lambda>i. 30 + int i)
            \<lparr>cb_name = Absent, cb_type = Some ''direct'', cb_createdBy = Some 1,
             cb_memberIds = Present [2, 2]\<rparr> users_store)"

definition ghost_store :: MemStorage where
  "ghost_store = addChatMember 42 99 2 (addChatMember 41 99 2 demo_store)"

text \<open>Two messages posted to chat 1 within the same millisecond, and three messages
  posted at different times.\<close>

definition tie_store :: MemStorage where
  "tie_store =
     snd (postMessages 100 \<lparr>mb_chatId = Some 1, mb_content = Some ''hey'', mb_senderId = Some 2\<rparr>
       (snd (postMessages 100 \<lparr>mb_chatId = Some 1, mb_content = Some ''hi'', mb_senderId = Some 1\<rparr>
          demo_store)))"

definition three_store :: MemStorage where
  "three_store =
     snd (postMessages 300 \<lparr>mb_chatId = Some 1, mb_content = Some ''c'', mb_senderId = Some 1\<rparr>
       (snd (postMessages 200 \<lparr>mb_chatId = Some 1, mb_content = Some ''b'', mb_senderId = Some 2\<rparr>
         (snd (postMessages 100 \<lparr>mb_chatId = Some 1, mb_content = Some ''a'', mb_senderId = Some 1\<rparr>
            demo_store)))))"

text \<open>
  \<open>DatabaseStorage.getChatMessages\<close> (the class that the later version of storage.ts
  exports as \<open>storage\<close>), read as the relational query it builds: the messages of the
  chat, inner-joined to the users on the sender id, ordered by ascending \<open>sentAt\<close>, the
  first \<open>limit\<close> rows. The query engine is not part of the repository; SQL leaves the
  order of rows with equal \<open>sentAt\<close> open, and this reading takes them in table order.
  It is used below only on messages with different times.
\<close>

definition db_getChatMessages ::
  "int \<Rightarrow> nat \<Rightarrow> Message list \<Rightarrow> User list \<Rightarrow> MessageWithSender list" where
  "db_getChatMessages chatId limit msgs usrs =
     take limit
       (sort_key sentAt
         (concat (map (\<lambda>message.
              map (\<lambda>u. \<lparr>m_id = m_id message, m_chatId = m_chatId message,
                         senderId = senderId message, content = content message,
                         sentAt = sentAt message, sender = u\<rparr>)
                  (filter (\<lambda>u. u_id u = senderId message) usrs))
            (filter (\<lambda>message. m_chatId message = chatId) msgs))))"

section \<open>Basic facts\<close>

lemma map_get_map_set: "map_get (map_set k v m) k' = (if k' = k then Some v else map_get m k')"
  by (simp add: map_get_def map_set_def update_conv')

lemma map_set_fresh: "k \<notin> fst ` set m \<Longrightarrow> map_set k v m = m @ [(k, v)]"
  unfolding map_set_def by (induction m) auto

lemma in_map_set: "(k', v') \<in> set (map_set k v m) \<Longrightarrow> (k' = k \<and> v' = v) \<or> (k', v') \<in> set m"
  unfolding map_set_def by (induction m) (auto split: if_splits)

lemma keys_map_set_present: "map_get m k \<noteq> None \<Longrightarrow> map fst (map_set k v m) = map fst m"
  unfolding map_set_def map_get_def
  by (simp add: update_keys map_of_eq_None_iff)

lemma map_get_None_iff: "map_get m k = None \<longleftrightarrow> k \<notin> fst ` set m"
  by (simp add: map_get_def map_of_eq_None_iff)

lemma map_get_SomeD: "map_get m k = Some v \<Longrightarrow> (k, v) \<in> set m"
  by (simp add: map_get_def map_of_SomeD)

lemma set_map_filter: "set (List.map_filter f xs) = {y. \<exists>x \<in> set xs. f x = Some y}"
  by (induction xs) (auto simp: map_filter_simps split: option.splits)

lemma demo_store_eq:
  "demo_store =
     \<lparr>users = [(1, \<lparr>u_id = 1, username = ''alice'', isOnline = True, lastSeen = 10\<rparr>),
               (2, \<lparr>u_id = 2, username = ''bob'', isOnline = True, lastSeen = 20\<rparr>)],
      chats = [(1, \<lparr>c_id = 1, c_name = None, c_type = ''direct'', createdBy = 1,
                     createdAt = 30\<rparr>)],
      chatMembers = [(1, \<lparr>cm_id = 1, cm_chatId = 1, cm_userId = 1, joinedAt = 31\<rparr>),
                     (2, \<lparr>cm_id = 2, cm_chatId = 1, cm_userId = 2, joinedAt = 32\<rparr>)],
      messages = [], currentUserId = 3, currentChatId = 2,
      currentChatMemberId = 3, currentMessageId = 1\<rparr>"
  by code_simp

subsection \<open>Joining a membership row to its user\<close>

lemma with_user_Some_iff:
  "with_user s m = Some e \<longleftrightarrow>
     (\<exists>u. getUser (cm_userId m) s = Some u \<and>
          e = \<lparr>cm_id = cm_id m, cm_chatId = cm_chatId m, cm_userId = cm_userId m,
               joinedAt = joinedAt m, user = u\<rparr>)"
  by (auto simp: with_user_def getUser_def split: option.splits)

lemma with_user_None_iff: "with_user s m = None \<longleftrightarrow> getUser (cm_userId m) s = None"
  by (auto simp: with_user_def getUser_def split: option.splits)

lemma truncate_with_user: "with_user s m = Some e \<Longrightarrow> ChatMember.truncate e = m"
  by (auto simp: with_user_def ChatMember.truncate_def split: option.splits)

lemma map_truncate_map_filter:
  "map ChatMember.truncate (List.map_filter (with_user s) xs) =
     filter (\<lambda>m. getUser (cm_userId m) s \<noteq> None) xs"
proof (induction xs)
  case Nil
  show ?case by simp
next
  case (Cons m xs)
  show ?case
  proof (cases "with_user s m")
    case None
    then have "getUser (cm_userId m) s = None" by (simp add: with_user_None_iff)
    with None Cons show ?thesis by simp
  next
    case (Some e)
    then have "getUser (cm_userId m) s \<noteq> None" by (auto simp: with_user_Some_iff)
    with Some Cons show ?thesis by (simp add: truncate_with_user)
  qed
qed

section \<open>Members of a chat\<close>

text \<open>
  C6. \<open>getChatMembers\<close> returns, in the order of the rows, one entry for each membership
  row of the chat whose user id resolves, joined to that user; a row whose user id does
  not resolve is left out. The function has no error result.
\<close>

theorem getChatMembers_resolved_rows:
  "map ChatMember.truncate (getChatMembers c s) =
     filter (\<lambda>m. cm_chatId m = c \<and> getUser (cm_userId m) s \<noteq> None)
       (map_values (chatMembers s)) \<and>
   (\<forall>e \<in> set (getChatMembers c s).
      cm_chatId e = c \<and> getUser (cm_userId e) s = Some (user e))"
proof -
  have "map ChatMember.truncate (getChatMembers c s) =
     filter (\<lambda>m. cm_chatId m = c \<and> getUser (cm_userId m) s \<noteq> None)
       (map_values (chatMembers s))"
    by (simp add: getChatMembers_def map_truncate_map_filter conj_commute)
  moreover have "\<forall>e \<in> set (getChatMembers c s).
      cm_chatId e = c \<and> getUser (cm_userId e) s = Some (user e)"
    by (auto simp: getChatMembers_def set_map_filter with_user_Some_iff)
  ultimately show ?thesis by simp
qed

theorem getChatMembers_resolved_rows_witness:
  "length (filter (\<lambda>m. cm_chatId m = 1) (map_values (chatMembers dangling_store))) = 3 \<and>
   map cm_userId (getChatMembers 1 dangling_store) = [1, 2] \<and>
   map user (getChatMembers 1 dangling_store) = [alice, bob] \<and>
   getUser 1 dangling_store = Some alice \<and> getUser 2 dangling_store = Some bob \<and>
   getUser 99 dangling_store = None"
proof -
  have ev: "getChatMembers 1 dangling_store =
     [\<lparr>cm_id = 1, cm_chatId = 1, cm_userId = 1, joinedAt = 31, user = alice\<rparr>,
      \<lparr>cm_id = 2, cm_chatId = 1, cm_userId = 2, joinedAt = 32, user = bob\<rparr>]"
    unfolding alice_def bob_def by code_simp
  have rows:
    "length (filter (\<lambda>m. cm_chatId m = 1) (map_values (chatMembers dangling_store))) = 3"
    by code_simp
  have dangling: "getUser 99 dangling_store = None" by code_simp
  from getChatMembers_resolved_rows[of 1 dangling_store] ev
  have "getUser 1 dangling_store = Some alice" "getUser 2 dangling_store = Some bob"
    by simp_all
  with ev rows dangling show ?thesis by simp
qed

section \<open>Unread count\<close>

text \<open>
  C7. In every store, the projection that \<open>getChatWithMembers\<close> returns for a chat has
  \<open>unreadCount\<close> 0, and \<open>getUnreadMessageCount\<close> is 0 for every chat and user.
\<close>

theorem unread_count_is_zero:
  "(getChatWithMembers c s = Some v \<longrightarrow> unreadCount v = Some 0) \<and>
   getUnreadMessageCount c u s = 0"
  by (auto simp: getChatWithMembers_def getUnreadMessageCount_def Let_def split: option.splits)

theorem unread_count_is_zero_witness:
  "map_option c_id (getChatWithMembers 1 demo_store) = Some 1 \<and>
   map_option unreadCount (getChatWithMembers 1 demo_store) = Some (Some 0) \<and>
   getUnreadMessageCount 1 2 demo_store = 0"
proof -
  obtain v where v: "getChatWithMembers 1 demo_store = Some v"
    by (cases "getChatWithMembers 1 demo_store")
       (simp_all add: getChatWithMembers_def demo_store_eq map_get_def)
  have "c_id v = 1"
    using v by (auto simp: getChatWithMembers_def demo_store_eq map_get_def Let_def)
  with v unread_count_is_zero[of 1 demo_store v 2] show ?thesis by simp
qed

section \<open>Online status\<close>

text \<open>
  C8. \<open>updateUserOnlineStatus\<close> on a user id that is not in the store returns the store
  as it was. On a user id that is in the store it replaces that user by the same user with
  the new \<open>isOnline\<close> and \<open>lastSeen\<close>, keeps the order of the users, and changes no
  other user, no chat, member or message and no counter. It has no error result.
\<close>

theorem updateUserOnlineStatus_frame:
  "(getUser userId s = None \<longrightarrow> updateUserOnlineStatus now userId online s = s) \<and>
   (\<forall>usr. getUser userId s = Some usr \<longrightarrow>
      (let s' = updateUserOnlineStatus now userId online s in
         getUser userId s' = Some (usr\<lparr>isOnline := online, lastSeen := now\<rparr>) \<and>
         (\<forall>other. other \<noteq> userId \<longrightarrow> getUser other s' = getUser other s) \<and>
         map fst (users s') = map fst (users s) \<and>
         chats s' = chats s \<and> chatMembers s' = chatMembers s \<and> messages s' = messages s \<and>
         currentUserId s' = currentUserId s \<and> currentChatId s' = currentChatId s \<and>
         currentChatMemberId s' = currentChatMemberId s \<and>
         currentMessageId s' = currentMessageId s))"
  by (auto simp: getUser_def updateUserOnlineStatus_def Let_def map_get_map_set
        keys_map_set_present)

theorem updateUserOnlineStatus_frame_witness:
  "getUser 7 demo_store = None \<and> updateUserOnlineStatus 50 7 False demo_store = demo_store \<and>
   getUser 2 demo_store = Some bob \<and>
   getUser 2 (updateUserOnlineStatus 50 2 False demo_store) =
     Some (bob\<lparr>isOnline := False, lastSeen := 50\<rparr>) \<and>
   getUser 1 (updateUserOnlineStatus 50 2 False demo_store) = Some alice"
proof -
  have a: "getUser 7 demo_store = None" and b: "getUser 2 demo_store = Some bob"
    and c: "getUser 1 demo_store = Some alice"
    by (simp_all add: getUser_def map_get_def demo_store_eq alice_def bob_def)
  from updateUserOnlineStatus_frame[of 7 demo_store 50 False] a
  have "updateUserOnlineStatus 50 7 False demo_store = demo_store" by simp
  moreover from updateUserOnlineStatus_frame[of 2 demo_store 50 False] b
  have "getUser 2 (updateUserOnlineStatus 50 2 False demo_store) =
          Some (bob\<lparr>isOnline := False, lastSeen := 50\<rparr>)"
    and "getUser 1 (updateUserOnlineStatus 50 2 False demo_store) = getUser 1 demo_store"
    by (simp_all add: Let_def)
  ultimately show ?thesis using a b c by simp
qed

section \<open>Creating messages\<close>

lemma ids_fresh_message_key: "ids_fresh s \<Longrightarrow> currentMessageId s \<notin> fst ` set (messages s)"
  by (fastforce simp: ids_fresh_def)

lemma ids_fresh_createMessage: "ids_fresh s \<Longrightarrow> ids_fresh (snd (createMessage now msg s))"
  by (fastforce simp: ids_fresh_def createMessage_def Let_def dest: in_map_set)

text \<open>
  C10. \<open>createMessage\<close> has no error result and looks neither the chat id nor the sender
  id up: for every input it returns the message with the next message id, the given chat
  id, sender id and content and the clock's time, stores it under that id, and changes no
  other message, user, chat or member. When the ids of the store are fresh, the id was
  unused before and the message is appended to the message collection.
\<close>

theorem createMessage_no_existence_check:
  "createMessage now msg s = (m, s') \<Longrightarrow>
     m = \<lparr>m_id = currentMessageId s, m_chatId = im_chatId msg, senderId = im_senderId msg,
          content = im_content msg, sentAt = now\<rparr> \<and>
     getMessage (m_id m) s' = Some m \<and>
     (\<forall>k. k \<noteq> m_id m \<longrightarrow> getMessage k s' = getMessage k s) \<and>
     currentMessageId s' = currentMessageId s + 1 \<and>
     users s' = users s \<and> chats s' = chats s \<and> chatMembers s' = chatMembers s \<and>
     (ids_fresh s \<longrightarrow>
        getMessage (m_id m) s = None \<and> messages s' = messages s @ [(m_id m, m)] \<and>
        ids_fresh s')"
proof -
  assume a: "createMessage now msg s = (m, s')"
  then have m: "m = \<lparr>m_id = currentMessageId s, m_chatId = im_chatId msg,
      senderId = im_senderId msg, content = im_content msg, sentAt = now\<rparr>"
    and s': "s' = s\<lparr>messages := map_set (currentMessageId s) m (messages s),
                    currentMessageId := currentMessageId s + 1\<rparr>"
    by (auto simp: createMessage_def Let_def)
  have id: "m_id m = currentMessageId s" by (simp add: m)
  have fresh: "getMessage (m_id m) s = None \<and> messages s' = messages s @ [(m_id m, m)] \<and>
      ids_fresh s'"
    if "ids_fresh s"
  proof -
    have k: "currentMessageId s \<notin> fst ` set (messages s)"
      using that by (rule ids_fresh_message_key)
    have "ids_fresh s'" using ids_fresh_createMessage[OF that, of now msg] a by simp
    with k show ?thesis
      by (simp add: id s' getMessage_def map_get_None_iff map_set_fresh)
  qed
  show ?thesis
    using m fresh by (auto simp: s' id getMessage_def map_get_map_set)
qed

theorem createMessage_no_existence_check_witness:
  "getChat 7 new_MemStorage = None \<and> getUser 9 new_MemStorage = None \<and>
   ids_fresh new_MemStorage \<and>
   createMessage 5 \<lparr>im_chatId = 7, im_content = ''hi'', im_senderId = 9\<rparr> new_MemStorage =
     (\<lparr>m_id = 1, m_chatId = 7, senderId = 9, content = ''hi'', sentAt = 5\<rparr>,
      new_MemStorage
        \<lparr>messages := [(1, \<lparr>m_id = 1, m_chatId = 7, senderId = 9, content = ''hi'',
                            sentAt = 5\<rparr>)],
         currentMessageId := 2\<rparr>) \<and>
   getMessage 1
     (snd (createMessage 5 \<lparr>im_chatId = 7, im_content = ''hi'', im_senderId = 9\<rparr>
            new_MemStorage)) =
     Some \<lparr>m_id = 1, m_chatId = 7, senderId = 9, content = ''hi'', sentAt = 5\<rparr>"
proof -
  let ?m = "\<lparr>m_id = 1, m_chatId = 7, senderId = 9, content = ''hi'', sentAt = 5\<rparr>"
  let ?s = "new_MemStorage\<lparr>messages := [(1, ?m)], currentMessageId := 2\<rparr>"
  have ev: "createMessage 5 \<lparr>im_chatId = 7, im_content = ''hi'', im_senderId = 9\<rparr>
      new_MemStorage = (?m, ?s)"
    by (simp add: createMessage_def new_MemStorage_def map_set_def Let_def)
  have fr: "ids_fresh new_MemStorage" by (simp add: ids_fresh_def new_MemStorage_def)
  have none: "getChat 7 new_MemStorage = None" "getUser 9 new_MemStorage = None"
    by (simp_all add: getChat_def getUser_def map_get_def new_MemStorage_def)
  from createMessage_no_existence_check[OF ev] have "getMessage (m_id ?m) ?s = Some ?m"
    by blast
  with ev fr none show ?thesis by simp
qed

text \<open>
  C3, as the spec states it, fails: a message whose content is a single space is accepted
  by the handler, stored, and takes message id 1.
\<close>

theorem postMessages_blank_content_counterexample:
  "fst (postMessages 50 blank_body demo_store) =
     Inr \<lparr>m_id = 1, m_chatId = 1, senderId = 1, content = '' '', sentAt = 50\<rparr> \<and>
   messages demo_store = [] \<and>
   messages (snd (postMessages 50 blank_body demo_store)) =
     [(1, \<lparr>m_id = 1, m_chatId = 1, senderId = 1, content = '' '', sentAt = 50\<rparr>)] \<and>
   currentMessageId demo_store = 1 \<and>
   currentMessageId (snd (postMessages 50 blank_body demo_store)) = 2"
  by (simp add: postMessages_def blank_body_def createMessage_def demo_store_eq map_set_def
        Let_def)

text \<open>
  C3, amended. Neither \<open>createMessage\<close> nor the handler of POST /api/messages inspects
  the content: for every content string, also an empty or blank one, the handler answers
  with the message that \<open>createMessage\<close> made, whose content is the string as given, stored
  under the next message id. The handler fails only when a field of the body is missing,
  with status 400, and then the store is unchanged.
\<close>

theorem postMessages_accepts_any_content:
  "postMessages now \<lparr>mb_chatId = Some c, mb_content = Some t, mb_senderId = Some u\<rparr> s =
     (Inr (fst (createMessage now \<lparr>im_chatId = c, im_content = t, im_senderId = u\<rparr> s)),
      snd (createMessage now \<lparr>im_chatId = c, im_content = t, im_senderId = u\<rparr> s)) \<and>
   content (fst (createMessage now \<lparr>im_chatId = c, im_content = t, im_senderId = u\<rparr> s)) = t \<and>
   getMessage (currentMessageId s)
       (snd (createMessage now \<lparr>im_chatId = c, im_content = t, im_senderId = u\<rparr> s)) =
     Some \<lparr>m_id = currentMessageId s, m_chatId = c, senderId = u, content = t, sentAt = now\<rparr> \<and>
   currentMessageId
       (snd (createMessage now \<lparr>im_chatId = c, im_content = t, im_senderId = u\<rparr> s)) =
     currentMessageId s + 1 \<and>
   (mb_chatId body = None \<or> mb_content body = None \<or> mb_senderId body = None \<longrightarrow>
      postMessages now body s = (Inl (400, ''Invalid message data''), s))"
  by (auto simp: postMessages_def createMessage_def Let_def getMessage_def map_get_map_set
      split: option.splits)

theorem postMessages_accepts_any_content_witness:
  "mb_content blank_body = Some '' '' \<and>
   fst (postMessages 50 blank_body demo_store) =
     Inr \<lparr>m_id = 1, m_chatId = 1, senderId = 1, content = '' '', sentAt = 50\<rparr> \<and>
   getMessage 1 (snd (postMessages 50 blank_body demo_store)) =
     Some \<lparr>m_id = 1, m_chatId = 1, senderId = 1, content = '' '', sentAt = 50\<rparr> \<and>
   postMessages 50 (blank_body\<lparr>mb_content := None\<rparr>) demo_store =
     (Inl (400, ''Invalid message data''), demo_store)"
proof -
  have c: "currentMessageId demo_store = 1" by (simp add: demo_store_eq)
  have m: "fst (createMessage 50 \<lparr>im_chatId = 1, im_content = '' '', im_senderId = 1\<rparr>
        demo_store) =
      \<lparr>m_id = 1, m_chatId = 1, senderId = 1, content = '' '', sentAt = 50\<rparr>"
    by (simp add: createMessage_def Let_def c)
  from postMessages_accepts_any_content
         [of 50 1 "'' ''" 1 demo_store "blank_body\<lparr>mb_content := None\<rparr>"]
  show ?thesis by (simp add: blank_body_def c m)
qed

section \<open>Registering users\<close>

lemma new_value_in_map_set: "v \<in> set (map_values (map_set k v m))"
proof -
  have "(k, v) \<in> set (map_set k v m)"
    by (rule map_get_SomeD) (simp add: map_get_map_set)
  then show ?thesis by (force simp: map_values_def)
qed

lemma find_None_iff_set: "find P xs = None \<longleftrightarrow> (\<forall>x \<in> set xs. \<not> P x)"
  by (induction xs) auto

lemma getUserByUsername_after_createUser:
  "getUserByUsername name (snd (createUser now \<lparr>iu_username = name\<rparr> s)) \<noteq> None"
proof -
  let ?u = "\<lparr>u_id = currentUserId s, username = name, isOnline = True, lastSeen = now\<rparr>"
  have "?u \<in> set (map_values (map_set (currentUserId s) ?u (users s)))"
    by (rule new_value_in_map_set)
  then have "\<exists>x \<in> set (map_values (map_set (currentUserId s) ?u (users s))). username x = name"
    by (rule bexI[rotated]) simp
  then show ?thesis
    by (simp add: getUserByUsername_def createUser_def Let_def find_None_iff_set)
qed

text \<open>
  C4, as the spec states it, fails: \<open>createUser\<close> of the store does not look the username
  up. In a store where alice is registered it creates a second user alice, with id 3.
\<close>

theorem createUser_duplicate_counterexample:
  "getUserByUsername ''alice'' demo_store = Some alice \<and>
   fst (createUser 60 \<lparr>iu_username = ''alice''\<rparr> demo_store) =
     \<lparr>u_id = 3, username = ''alice'', isOnline = True, lastSeen = 60\<rparr> \<and>
   map (\<lambda>(k, v). (k, username v))
       (users (snd (createUser 60 \<lparr>iu_username = ''alice''\<rparr> demo_store))) =
     [(1, ''alice''), (2, ''bob''), (3, ''alice'')]"
  by (simp add: createUser_def demo_store_eq map_set_def Let_def getUserByUsername_def
        map_values_def alice_def)

text \<open>
  C4, amended. The check is made by the handler of POST /api/users before it calls
  \<open>createUser\<close>: when a user with exactly this username is in the store, the handler
  answers 400 "Username already taken" and the store is unchanged. When there is none, the
  handler answers with the new user (next user id, online, last seen now), and a second
  request with the same username is then refused, leaving the store as the first left it.
\<close>

theorem postUsers_rejects_duplicate:
  "(getUserByUsername name s \<noteq> None \<longrightarrow>
      postUsers now (Some name) s = (Inl (400, ''Username already taken''), s)) \<and>
   (getUserByUsername name s = None \<longrightarrow>
      fst (postUsers now (Some name) s) =
        Inr \<lparr>u_id = currentUserId s, username = name, isOnline = True, lastSeen = now\<rparr> \<and>
      postUsers later (Some name) (snd (postUsers now (Some name) s)) =
        (Inl (400, ''Username already taken''), snd (postUsers now (Some name) s)))"
proof -
  have taken: "postUsers t (Some name) s' = (Inl (400, ''Username already taken''), s')"
    if "getUserByUsername name s' \<noteq> None" for t s'
    using that by (auto simp: postUsers_def split: option.splits)
  have "fst (postUsers now (Some name) s) =
        Inr \<lparr>u_id = currentUserId s, username = name, isOnline = True, lastSeen = now\<rparr> \<and>
      postUsers later (Some name) (snd (postUsers now (Some name) s)) =
        (Inl (400, ''Username already taken''), snd (postUsers now (Some name) s))"
    if free: "getUserByUsername name s = None"
  proof -
    have run: "postUsers now (Some name) s =
        (Inr (fst (createUser now \<lparr>iu_username = name\<rparr> s)),
         snd (createUser now \<lparr>iu_username = name\<rparr> s))"
      using free by (simp add: postUsers_def split_beta)
    have "fst (createUser now \<lparr>iu_username = name\<rparr> s) =
        \<lparr>u_id = currentUserId s, username = name, isOnline = True, lastSeen = now\<rparr>"
      by (simp add: createUser_def Let_def)
    moreover have "getUserByUsername name (snd (postUsers now (Some name) s)) \<noteq> None"
      using getUserByUsername_after_createUser[of name now s] by (simp add: run)
    ultimately show ?thesis using taken by (simp add: run)
  qed
  with taken show ?thesis by blast
qed

theorem postUsers_rejects_duplicate_witness:
  "getUserByUsername ''alice'' demo_store \<noteq> None \<and>
   postUsers 60 (Some ''alice'') demo_store =
     (Inl (400, ''Username already taken''), demo_store) \<and>
   getUserByUsername ''Alice'' demo_store = None \<and>
   fst (postUsers 60 (Some ''Alice'') demo_store) =
     Inr \<lparr>u_id = 3, username = ''Alice'', isOnline = True, lastSeen = 60\<rparr> \<and>
   fst (postUsers 70 (Some ''Alice'') (snd (postUsers 60 (Some ''Alice'') demo_store))) =
     Inl (400, ''Username already taken'')"
proof -
  have a: "getUserByUsername ''alice'' demo_store \<noteq> None"
    and b: "getUserByUsername ''Alice'' demo_store = None"
    by (simp_all add: getUserByUsername_def demo_store_eq map_values_def)
  have c: "currentUserId demo_store = 3" by (simp add: demo_store_eq)
  from postUsers_rejects_duplicate[of "''alice''" demo_store 60] a
    postUsers_rejects_duplicate[of "''Alice''" demo_store 60 70] b c
  show ?thesis by simp
qed

section \<open>The invariants are kept\<close>

lemma ids_fresh_new: "ids_fresh new_MemStorage"
  by (simp add: ids_fresh_def new_MemStorage_def)

lemma ids_fresh_createUser: "ids_fresh s \<Longrightarrow> ids_fresh (snd (createUser now iu s))"
  by (fastforce simp: ids_fresh_def createUser_def Let_def dest: in_map_set)

lemma ids_fresh_updateUserOnlineStatus:
  assumes "ids_fresh s" shows "ids_fresh (updateUserOnlineStatus now userId online s)"
proof (cases "map_get (users s) userId")
  case None
  with assms show ?thesis by (simp add: updateUserOnlineStatus_def)
next
  case (Some usr)
  then have "(userId, usr) \<in> set (users s)" by (rule map_get_SomeD)
  with assms have "u_id usr = userId" "userId < currentUserId s"
    by (auto simp: ids_fresh_def)
  with assms Some show ?thesis
    by (fastforce simp: ids_fresh_def updateUserOnlineStatus_def dest: in_map_set)
qed

lemma ids_fresh_addChatMember: "ids_fresh s \<Longrightarrow> ids_fresh (addChatMember now c u s)"
  by (fastforce simp: ids_fresh_def addChatMember_def Let_def dest: in_map_set)

lemma ids_fresh_chat_key: "ids_fresh s \<Longrightarrow> currentChatId s \<notin> fst ` set (chats s)"
  by (fastforce simp: ids_fresh_def)

lemma ids_fresh_member_key: "ids_fresh s \<Longrightarrow> currentChatMemberId s \<notin> fst ` set (chatMembers s)"
  by (fastforce simp: ids_fresh_def)

lemma addChatMember_rows:
  "ids_fresh s \<Longrightarrow>
   chatMembers (addChatMember now c u s) =
     chatMembers s @ [(currentChatMemberId s,
        \<lparr>cm_id = currentChatMemberId s, cm_chatId = c, cm_userId = u, joinedAt = now\<rparr>)]"
  by (simp add: addChatMember_def Let_def map_set_fresh ids_fresh_member_key)

lemma addChatMember_frame [simp]:
  "users (addChatMember now c u s) = users s"
  "chats (addChatMember now c u s) = chats s"
  "messages (addChatMember now c u s) = messages s"
  "currentUserId (addChatMember now c u s) = currentUserId s"
  "currentChatId (addChatMember now c u s) = currentChatId s"
  "currentMessageId (addChatMember now c u s) = currentMessageId s"
  "currentChatMemberId (addChatMember now c u s) = currentChatMemberId s + 1"
  by (simp_all add: addChatMember_def Let_def)

lemma createChat_unfold:
  "createChat now joined chat s =
     (newChat now chat s,
      addChatMember joined (currentChatId s) (ic_createdBy chat)
        (s\<lparr>chats := map_set (currentChatId s) (newChat now chat s) (chats s),
           currentChatId := currentChatId s + 1\<rparr>))"
  by (simp add: createChat_def newChat_def Let_def)

lemma ids_fresh_createChat: "ids_fresh s \<Longrightarrow> ids_fresh (snd (createChat now joined chat s))"
proof -
  assume a: "ids_fresh s"
  have "ids_fresh (s\<lparr>chats := map_set (currentChatId s) (newChat now chat s) (chats s),
           currentChatId := currentChatId s + 1\<rparr>)"
    using a by (fastforce simp: ids_fresh_def newChat_def dest: in_map_set)
  then show ?thesis by (simp add: createChat_unfold ids_fresh_addChatMember)
qed

lemma store_inv_rows_below:
  assumes "store_inv s" "member \<in> set (map_values (chatMembers s))"
  shows "cm_chatId member < currentChatId s"
proof -
  from assms obtain chat where "map_get (chats s) (cm_chatId member) = Some chat"
    by (auto simp: store_inv_def members_grouped_def)
  then have "(cm_chatId member, chat) \<in> set (chats s)" by (rule map_get_SomeD)
  with assms(1) show ?thesis by (auto simp: store_inv_def ids_fresh_def)
qed

lemma store_inv_addChatMember:
  assumes inv: "store_inv s" and newest: "newest_chat c s"
  shows "store_inv (addChatMember now c u s) \<and> newest_chat c (addChatMember now c u s)"
proof -
  have fresh: "ids_fresh s" using inv by (simp add: store_inv_def)
  have rows: "map_values (chatMembers (addChatMember now c u s)) =
      map_values (chatMembers s) @
        [\<lparr>cm_id = currentChatMemberId s, cm_chatId = c, cm_userId = u, joinedAt = now\<rparr>]"
    by (simp add: addChatMember_rows[OF fresh] map_values_def)
  have "members_grouped (addChatMember now c u s)"
    using inv newest
    by (auto simp: members_grouped_def rows store_inv_def newest_chat_def sorted_append)
  moreover have "newest_chat c (addChatMember now c u s)"
    using newest by (auto simp: newest_chat_def rows)
  ultimately show ?thesis
    by (simp add: store_inv_def ids_fresh_addChatMember[OF fresh])
qed

lemma store_inv_createChat:
  assumes inv: "store_inv s"
  shows "store_inv (snd (createChat now joined chat s)) \<and>
         newest_chat (currentChatId s) (snd (createChat now joined chat s))"
proof -
  let ?s1 = "s\<lparr>chats := map_set (currentChatId s) (newChat now chat s) (chats s),
              currentChatId := currentChatId s + 1\<rparr>"
  have fresh: "ids_fresh s" using inv by (simp add: store_inv_def)
  have "ids_fresh ?s1"
    using fresh by (fastforce simp: ids_fresh_def newChat_def dest: in_map_set)
  moreover have "members_grouped ?s1"
    using inv by (auto simp: store_inv_def members_grouped_def map_get_map_set)
  ultimately have 1: "store_inv ?s1" by (simp add: store_inv_def)
  have 2: "newest_chat (currentChatId s) ?s1"
    using store_inv_rows_below[OF inv] by (fastforce simp: newest_chat_def map_get_map_set)
  from store_inv_addChatMember[OF 1 2] show ?thesis by (simp add: createChat_unfold)
qed

lemma store_inv_addMembers:
  "store_inv s \<Longrightarrow> newest_chat c s \<Longrightarrow>
   store_inv (addMembers clock i c creator ids s) \<and> newest_chat c (addMembers clock i c creator ids s)"
  by (induction ids arbitrary: i s) (auto simp: store_inv_addChatMember)

lemma store_inv_new: "store_inv new_MemStorage"
proof -
  have "members_grouped new_MemStorage"
    by (simp add: members_grouped_def new_MemStorage_def map_values_def)
  then show ?thesis by (simp add: store_inv_def ids_fresh_new)
qed

lemma members_grouped_cong:
  "chats s' = chats s \<Longrightarrow> chatMembers s' = chatMembers s \<Longrightarrow> members_grouped s' = members_grouped s"
  by (simp add: members_grouped_def)

lemma store_inv_postUsers: "store_inv s \<Longrightarrow> store_inv (snd (postUsers now body s))"
proof -
  assume a: "store_inv s"
  have "store_inv (snd (createUser now iu s))" for iu
    using a ids_fresh_createUser[of s now iu]
    by (simp add: store_inv_def members_grouped_def createUser_def Let_def)
  with a show ?thesis by (auto simp: postUsers_def split_beta split: option.splits)
qed

lemma store_inv_putUserStatus: "store_inv s \<Longrightarrow> store_inv (snd (putUserStatus now userId online s))"
proof -
  assume a: "store_inv s"
  have "members_grouped (updateUserOnlineStatus now userId online s)"
    using a by (auto simp: store_inv_def members_grouped_def updateUserOnlineStatus_def split: option.splits)
  with a ids_fresh_updateUserOnlineStatus[of s now userId online] show ?thesis
    by (simp add: store_inv_def putUserStatus_def)
qed

lemma store_inv_postMessages: "store_inv s \<Longrightarrow> store_inv (snd (postMessages now body s))"
proof -
  assume a: "store_inv s"
  have "store_inv (snd (createMessage now im s))" for im
    using a ids_fresh_createMessage[of s now im]
    by (simp add: store_inv_def members_grouped_def createMessage_def Let_def)
  with a show ?thesis by (auto simp: postMessages_def split_beta split: option.splits)
qed

lemma createChat_id: "c_id (fst (createChat now joined chat s)) = currentChatId s"
  by (simp add: createChat_unfold newChat_def)

lemma store_inv_postChats: "store_inv s \<Longrightarrow> store_inv (snd (postChats clock body s))"
  using store_inv_createChat store_inv_addMembers
  by (auto simp: postChats_def split_beta createChat_id Let_def
        split: option.splits optional_field.splits)

lemma store_inv_postChatsDirect: "store_inv s \<Longrightarrow> store_inv (snd (postChatsDirect clock a b s))"
  using store_inv_createChat store_inv_addChatMember
  by (auto simp: postChatsDirect_def split_beta createChat_id Let_def split: option.splits)

lemma reachable_store_inv: "reachable s \<Longrightarrow> store_inv s"
  by (induction rule: reachable.induct)
     (simp_all add: store_inv_new store_inv_postUsers store_inv_putUserStatus store_inv_postChats
        store_inv_postMessages store_inv_postChatsDirect)

section \<open>The chats of a user\<close>

lemma with_user_cong: "users s' = users s \<Longrightarrow> with_user s' = with_user s"
  by (rule ext) (simp add: with_user_def)

lemma getChatWithMembers_Some_iff:
  "getChatWithMembers c s = Some v \<longleftrightarrow>
     (\<exists>chat. getChat c s = Some chat \<and>
        v = \<lparr>c_id = c_id chat, c_name = c_name chat, c_type = c_type chat,
             createdBy = createdBy chat, createdAt = createdAt chat,
             members = getChatMembers c s,
             lastMessage = (case getChatMessages c (Some 1) s of [] \<Rightarrow> None | m # _ \<Rightarrow> Some m),
             unreadCount = Some 0\<rparr>)"
  by (auto simp: getChatWithMembers_def getChat_def Let_def split: option.splits)

lemma getChatWithMembers_None_iff: "getChatWithMembers c s = None \<longleftrightarrow> getChat c s = None"
  by (auto simp: getChatWithMembers_def getChat_def Let_def split: option.splits)

lemma getChatWithMembers_members:
  "getChatWithMembers c s = Some v \<Longrightarrow> members v = getChatMembers c s"
  by (auto simp: getChatWithMembers_Some_iff)

lemma getChatWithMembers_id:
  assumes "ids_fresh s" "getChatWithMembers c s = Some v" shows "c_id v = c"
proof -
  from assms(2) obtain chat where c: "getChat c s = Some chat" and v: "c_id v = c_id chat"
    by (auto simp: getChatWithMembers_Some_iff)
  from c have "(c, chat) \<in> set (chats s)" unfolding getChat_def by (rule map_get_SomeD)
  with assms(1) v show ?thesis by (auto simp: ids_fresh_def)
qed

lemma map_c_id_views:
  assumes "ids_fresh s"
  shows "map c_id (List.map_filter (\<lambda>member. getChatWithMembers (cm_chatId member) s) xs) =
         map cm_chatId (filter (\<lambda>member. getChat (cm_chatId member) s \<noteq> None) xs)"
proof (induction xs)
  case Nil
  show ?case by simp
next
  case (Cons m xs)
  show ?case
  proof (cases "getChatWithMembers (cm_chatId m) s")
    case None
    then have "getChat (cm_chatId m) s = None" by (simp add: getChatWithMembers_None_iff)
    with None Cons show ?thesis by simp
  next
    case (Some v)
    then have "getChat (cm_chatId m) s \<noteq> None" by (auto simp: getChatWithMembers_Some_iff)
    moreover have "c_id v = cm_chatId m" using assms Some by (rule getChatWithMembers_id)
    ultimately show ?thesis using Some Cons by simp
  qed
qed

lemma getUserChats_ids:
  "ids_fresh s \<Longrightarrow>
   map c_id (getUserChats u s) =
     map cm_chatId (filter (\<lambda>member. cm_userId member = u \<and> getChat (cm_chatId member) s \<noteq> None)
                     (map_values (chatMembers s)))"
  by (simp add: getUserChats_def map_c_id_views conj_commute)

lemma getChat_addChatMember [simp]: "getChat c (addChatMember now c' u s) = getChat c s"
  by (simp add: getChat_def)

lemma getUser_addChatMember [simp]: "getUser c (addChatMember now c' u s) = getUser c s"
  by (simp add: getUser_def)

lemma map_Some_map_filter:
  "map Some (List.map_filter f xs) = map f (filter (\<lambda>x. f x \<noteq> None) xs)"
  by (induction xs) (auto split: option.splits)

text \<open>
  C9, as the spec states it, fails: \<open>addChatMember\<close> does not look the chat up, and
  \<open>getUserChats\<close> drops the rows whose chat does not exist. After bob is added twice to
  chat 99, which does not exist, he has three membership rows, rows 3 and 4 are the two new
  ones, and his chats are still the one direct chat: chat 99 appears zero times.
\<close>

theorem getUserChats_missing_chat_counterexample:
  "getChat 99 demo_store = None \<and>
   map (\<lambda>(k, member). (k, cm_chatId member, cm_userId member)) (chatMembers ghost_store) =
     [(1, 1, 1), (2, 1, 2), (3, 99, 2), (4, 99, 2)] \<and>
   length (filter (\<lambda>member. cm_userId member = 2) (map_values (chatMembers ghost_store))) = 3 \<and>
   map c_id (getUserChats 2 ghost_store) = [1]"
  by code_simp

text \<open>
  C9, amended. \<open>getUserChats\<close> returns one entry for each membership row of the user
  whose chat exists (not one for each distinct chat), in the order of the rows: the entry
  of a row is what \<open>getChatWithMembers\<close> returns for the chat of the row. Where every
  membership row belongs to an existing chat, as in every state the handlers can reach,
  that is one entry for each membership row of the user. Calling \<open>addChatMember\<close> twice
  with the same chat and user appends two rows with different ids; the chat then appears
  two more times in \<open>getUserChats\<close> of that user when it exists, and not at all when
  it does not.
\<close>

theorem getUserChats_one_entry_per_row:
  assumes fresh: "ids_fresh s"
  shows "map Some (getUserChats u s) =
           map (\<lambda>member. getChatWithMembers (cm_chatId member) s)
             (filter (\<lambda>member. cm_userId member = u \<and> getChat (cm_chatId member) s \<noteq> None)
                (map_values (chatMembers s))) \<and>
         map c_id (getUserChats u s) =
           map cm_chatId
             (filter (\<lambda>member. cm_userId member = u \<and> getChat (cm_chatId member) s \<noteq> None)
                (map_values (chatMembers s))) \<and>
         (members_grouped s \<longrightarrow>
            map c_id (getUserChats u s) =
              map cm_chatId
                (filter (\<lambda>member. cm_userId member = u) (map_values (chatMembers s)))) \<and>
         chatMembers (addChatMember t2 c u (addChatMember t1 c u s)) =
           chatMembers s @
             [(currentChatMemberId s,
               \<lparr>cm_id = currentChatMemberId s, cm_chatId = c, cm_userId = u,
                joinedAt = t1\<rparr>),
              (currentChatMemberId s + 1,
               \<lparr>cm_id = currentChatMemberId s + 1, cm_chatId = c, cm_userId = u,
                joinedAt = t2\<rparr>)] \<and>
         map c_id (getUserChats u (addChatMember t2 c u (addChatMember t1 c u s))) =
           map c_id (getUserChats u s) @ (if getChat c s \<noteq> None then [c, c] else [])"
proof -
  let ?s1 = "addChatMember t1 c u s"
  let ?s2 = "addChatMember t2 c u ?s1"
  let ?rows = "filter (\<lambda>member. cm_userId member = u \<and> getChat (cm_chatId member) s \<noteq> None)
                 (map_values (chatMembers s))"
  have 0: "map Some (getUserChats u s) =
             map (\<lambda>member. getChatWithMembers (cm_chatId member) s) ?rows"
    by (simp add: getUserChats_def map_Some_map_filter getChatWithMembers_None_iff)
  have 1: "map c_id (getUserChats u s) = map cm_chatId ?rows"
    using fresh by (rule getUserChats_ids)
  have 2: "map c_id (getUserChats u s) =
             map cm_chatId
               (filter (\<lambda>member. cm_userId member = u) (map_values (chatMembers s)))"
    if "members_grouped s"
  proof -
    have "?rows = filter (\<lambda>member. cm_userId member = u) (map_values (chatMembers s))"
      using that by (intro filter_cong) (auto simp: members_grouped_def getChat_def)
    with 1 show ?thesis by simp
  qed
  have fresh1: "ids_fresh ?s1" using fresh by (rule ids_fresh_addChatMember)
  have fresh2: "ids_fresh ?s2" using fresh1 by (rule ids_fresh_addChatMember)
  have rows: "chatMembers ?s2 = chatMembers s @
                [(currentChatMemberId s,
                  \<lparr>cm_id = currentChatMemberId s, cm_chatId = c, cm_userId = u,
                   joinedAt = t1\<rparr>),
                 (currentChatMemberId s + 1,
                  \<lparr>cm_id = currentChatMemberId s + 1, cm_chatId = c, cm_userId = u,
                   joinedAt = t2\<rparr>)]"
    by (simp add: addChatMember_rows[OF fresh1] addChatMember_rows[OF fresh])
  have 3: "map c_id (getUserChats u ?s2) =
             map c_id (getUserChats u s) @ (if getChat c s \<noteq> None then [c, c] else [])"
    by (simp add: getUserChats_ids[OF fresh2] 1 rows map_values_def)
  from 0 1 2 3 rows show ?thesis by blast
qed

theorem getUserChats_one_entry_per_row_witness:
  "ids_fresh demo_store \<and> members_grouped demo_store \<and> getChat 1 demo_store \<noteq> None \<and>
   map c_id (getUserChats 2 demo_store) = [1] \<and>
   map (\<lambda>(k, member). (k, cm_chatId member, cm_userId member))
     (chatMembers (addChatMember 42 1 2 (addChatMember 41 1 2 demo_store))) =
     [(1, 1, 1), (2, 1, 2), (3, 1, 2), (4, 1, 2)] \<and>
   map c_id (getUserChats 2 (addChatMember 42 1 2 (addChatMember 41 1 2 demo_store))) =
     [1, 1, 1]"
proof -
  have f: "ids_fresh demo_store" by (simp add: ids_fresh_def demo_store_eq)
  have g: "members_grouped demo_store"
    by (simp add: members_grouped_def demo_store_eq map_values_def map_get_def)
  have c: "getChat 1 demo_store \<noteq> None" by (simp add: getChat_def demo_store_eq map_get_def)
  have k: "currentChatMemberId demo_store = 3"
    and rows': "chatMembers demo_store =
     [(1, \<lparr>cm_id = 1, cm_chatId = 1, cm_userId = 1, joinedAt = 31\<rparr>),
      (2, \<lparr>cm_id = 2, cm_chatId = 1, cm_userId = 2, joinedAt = 32\<rparr>)]"
    by (simp_all add: demo_store_eq)
  note h = getUserChats_one_entry_per_row[OF f, of 2 42 1 41]
  from h g have ids: "map c_id (getUserChats 2 demo_store) =
      map cm_chatId (filter (\<lambda>member. cm_userId member = 2) (map_values (chatMembers demo_store)))"
    by blast
  from h have rows2: "chatMembers (addChatMember 42 1 2 (addChatMember 41 1 2 demo_store)) =
      chatMembers demo_store @
        [(currentChatMemberId demo_store,
          \<lparr>cm_id = currentChatMemberId demo_store, cm_chatId = 1, cm_userId = 2, joinedAt = 41\<rparr>),
         (currentChatMemberId demo_store + 1,
          \<lparr>cm_id = currentChatMemberId demo_store + 1, cm_chatId = 1, cm_userId = 2,
           joinedAt = 42\<rparr>)]"
    by blast
  from h have twice: "map c_id (getUserChats 2 (addChatMember 42 1 2 (addChatMember 41 1 2 demo_store))) =
      map c_id (getUserChats 2 demo_store) @ (if getChat 1 demo_store \<noteq> None then [1, 1] else [])"
    by blast
  have a: "map c_id (getUserChats 2 demo_store) = [1]"
    unfolding ids by (simp add: rows' map_values_def)
  have b: "map c_id (getUserChats 2 (addChatMember 42 1 2 (addChatMember 41 1 2 demo_store))) =
      [1, 1, 1]"
    unfolding twice a using c by simp
  have r: "map (\<lambda>(k, member). (k, cm_chatId member, cm_userId member))
     (chatMembers (addChatMember 42 1 2 (addChatMember 41 1 2 demo_store))) =
     [(1, 1, 1), (2, 1, 2), (3, 1, 2), (4, 1, 2)]"
    unfolding rows2 by (simp add: rows' k)
  from f g c a b r show ?thesis by blast
qed

section \<open>Creating a chat\<close>

text \<open>
  C5, as the spec states it, fails: in a new store, where user 1 does not exist, the chat
  created by user 1 is returned with an empty member list, because \<open>getChatMembers\<close>
  leaves out the creator's row.
\<close>

theorem createChat_dangling_creator_counterexample:
  "getUser 1 new_MemStorage = None \<and>
   map_option members
     (getChatWithMembers 1
        (snd (createChat 5 6 \<lparr>ic_name = Some ''Team'', ic_type = ''group'', ic_createdBy = 1\<rparr>
               new_MemStorage))) = Some []"
  by code_simp

text \<open>
  C5, amended. In a store that satisfies the invariant, when the creator resolves to a
  user, \<open>createChat\<close> itself appends the creator's membership row, and
  \<open>getChatWithMembers\<close> on the new chat id returns a chat whose member list is
  exactly that row joined to the creator.
\<close>

theorem createChat_creator_only_member:
  assumes inv: "store_inv s"
    and creator: "getUser (ic_createdBy chat) s = Some u"
    and run: "createChat now joined chat s = (c, s')"
  shows "c_id c = currentChatId s \<and>
         chatMembers s' = chatMembers s @
           [(currentChatMemberId s,
             \<lparr>cm_id = currentChatMemberId s, cm_chatId = c_id c,
              cm_userId = ic_createdBy chat, joinedAt = joined\<rparr>)] \<and>
         map_option members (getChatWithMembers (c_id c) s') =
           Some [\<lparr>cm_id = currentChatMemberId s, cm_chatId = c_id c,
                  cm_userId = ic_createdBy chat, joinedAt = joined, user = u\<rparr>] \<and>
         map_option c_type (getChatWithMembers (c_id c) s') = Some (ic_type chat)"
proof -
  let ?n = "currentChatId s"
  let ?s1 = "s\<lparr>chats := map_set ?n (newChat now chat s) (chats s), currentChatId := ?n + 1\<rparr>"
  let ?row = "\<lparr>cm_id = currentChatMemberId s, cm_chatId = ?n,
              cm_userId = ic_createdBy chat, joinedAt = joined\<rparr>"
  have fresh: "ids_fresh s" using inv by (simp add: store_inv_def)
  have fresh1: "ids_fresh ?s1"
    using fresh by (fastforce simp: ids_fresh_def newChat_def dest: in_map_set)
  from run have c: "c = newChat now chat s" and s': "s' = addChatMember joined ?n (ic_createdBy chat) ?s1"
    by (auto simp: createChat_unfold)
  have id: "c_id c = ?n" by (simp add: c newChat_def)
  have rows: "chatMembers s' = chatMembers s @ [(currentChatMemberId s, ?row)]"
    using addChatMember_rows[OF fresh1, of joined ?n "ic_createdBy chat"] by (simp add: s')
  have old: "filter (\<lambda>member. cm_chatId member = ?n) (map_values (chatMembers s)) = []"
    using store_inv_rows_below[OF inv] by (fastforce simp: filter_empty_conv)
  have wu: "with_user s' ?row = Some \<lparr>cm_id = currentChatMemberId s, cm_chatId = ?n,
                  cm_userId = ic_createdBy chat, joinedAt = joined, user = u\<rparr>"
    using creator by (simp add: with_user_Some_iff s' getUser_def)
  have mem: "getChatMembers ?n s' = [\<lparr>cm_id = currentChatMemberId s, cm_chatId = ?n,
                  cm_userId = ic_createdBy chat, joinedAt = joined, user = u\<rparr>]"
    using wu by (simp add: getChatMembers_def rows map_values_def old[unfolded map_values_def])
  have chat: "getChat ?n s' = Some (newChat now chat s)"
    by (simp add: s' getChat_def map_get_map_set)
  from chat mem have "map_option members (getChatWithMembers ?n s') =
      Some [\<lparr>cm_id = currentChatMemberId s, cm_chatId = ?n,
                  cm_userId = ic_createdBy chat, joinedAt = joined, user = u\<rparr>]"
    and "map_option c_type (getChatWithMembers ?n s') = Some (ic_type chat)"
    by (simp_all add: getChatWithMembers_def getChat_def Let_def newChat_def)
  with id rows show ?thesis by simp
qed

lemma store_inv_demo: "store_inv demo_store"
proof -
  have "ids_fresh demo_store" by (simp add: ids_fresh_def demo_store_eq)
  moreover have "members_grouped demo_store"
    by (simp add: members_grouped_def demo_store_eq map_values_def map_get_def)
  ultimately show ?thesis by (simp add: store_inv_def)
qed

theorem createChat_creator_only_member_witness:
  "store_inv demo_store \<and> getUser 2 demo_store = Some bob \<and>
   map_option members
     (getChatWithMembers 2
        (snd (createChat 50 51 \<lparr>ic_name = Some ''Team'', ic_type = ''group'', ic_createdBy = 2\<rparr>
               demo_store))) =
     Some [\<lparr>cm_id = 3, cm_chatId = 2, cm_userId = 2, joinedAt = 51, user = bob\<rparr>]"
proof -
  let ?chat = "\<lparr>ic_name = Some ''Team'', ic_type = ''group'', ic_createdBy = 2\<rparr>"
  have u: "getUser (ic_createdBy ?chat) demo_store = Some bob"
    by (simp add: getUser_def map_get_def demo_store_eq bob_def)
  have k: "currentChatId demo_store = 2" "currentChatMemberId demo_store = 3"
    by (simp_all add: demo_store_eq)
  let ?r = "createChat 50 51 ?chat demo_store"
  note h = createChat_creator_only_member[OF store_inv_demo u surjective_pairing, of 50 51]
  from h have id: "c_id (fst ?r) = currentChatId demo_store" by (rule conjunct1)
  from h have "map_option members (getChatWithMembers (c_id (fst ?r)) (snd ?r)) =
      Some [\<lparr>cm_id = currentChatMemberId demo_store, cm_chatId = c_id (fst ?r),
             cm_userId = ic_createdBy ?chat, joinedAt = 51, user = bob\<rparr>]"
    by blast
  then have "map_option members (getChatWithMembers 2 (snd ?r)) =
      Some [\<lparr>cm_id = 3, cm_chatId = 2, cm_userId = ic_createdBy ?chat, joinedAt = 51,
             user = bob\<rparr>]"
    unfolding id k .
  then have "map_option members (getChatWithMembers 2 (snd ?r)) =
      Some [\<lparr>cm_id = 3, cm_chatId = 2, cm_userId = 2, joinedAt = 51, user = bob\<rparr>]"
    by simp
  moreover have "getUser 2 demo_store = Some bob" using u by simp
  ultimately show ?thesis using store_inv_demo by blast
qed

text \<open>The creator's row is appended by \<open>createChat\<close> whether or not the creator
  resolves to a user.\<close>

lemma createChat_appends_creator_row:
  assumes "ids_fresh s"
  shows "chatMembers (snd (createChat now joined chat s)) =
           chatMembers s @
             [(currentChatMemberId s,
               \<lparr>cm_id = currentChatMemberId s, cm_chatId = currentChatId s,
                cm_userId = ic_createdBy chat, joinedAt = joined\<rparr>)]"
proof -
  let ?s1 = "s\<lparr>chats := map_set (currentChatId s) (newChat now chat s) (chats s),
              currentChatId := currentChatId s + 1\<rparr>"
  have "ids_fresh ?s1"
    using assms by (fastforce simp: ids_fresh_def newChat_def dest: in_map_set)
  from addChatMember_rows[OF this, of joined "currentChatId s" "ic_createdBy chat"]
  show ?thesis by (simp add: createChat_unfold)
qed

section \<open>Find or create a direct chat\<close>

lemma map_filter_append: "List.map_filter f (xs @ ys) = List.map_filter f xs @ List.map_filter f ys"
  by (simp add: List.map_filter_def)

lemma map_filter_cong_set:
  "(\<And>x. x \<in> set xs \<Longrightarrow> f x = g x) \<Longrightarrow> List.map_filter f xs = List.map_filter g xs"
  by (induction xs) (simp_all split: option.splits)

lemma getChatMessages_cong:
  "messages s' = messages s \<Longrightarrow> users s' = users s \<Longrightarrow>
   getChatMessages c l s' = getChatMessages c l s"
proof -
  assume m: "messages s' = messages s" and u: "users s' = users s"
  have "with_sender s' = with_sender s" by (rule ext) (simp add: with_sender_def u)
  then show ?thesis by (simp add: getChatMessages_def m)
qed

lemma getChatMembers_append_rows:
  assumes "users s' = users s" "map_values (chatMembers s') = map_values (chatMembers s) @ new"
  shows "getChatMembers c s' =
           getChatMembers c s @ List.map_filter (with_user s) (filter (\<lambda>member. cm_chatId member = c) new)"
  by (simp add: getChatMembers_def assms map_filter_append with_user_cong[OF assms(1)])

lemma postChatsDirect_unfold:
  "postChatsDirect clock a b s =
     (case find (is_direct_with b) (getUserChats a s) of
        Some existingChat \<Rightarrow> (Inr (Some existingChat), s)
      | None \<Rightarrow> (Inr (getChatWithMembers (currentChatId s) (direct_created clock a b s)),
                 direct_created clock a b s))"
  by (simp add: postChatsDirect_def direct_created_def Let_def split_beta createChat_id
      split: option.splits)

text \<open>What the creating branch does to the store.\<close>

lemma direct_created_frame:
  "users (direct_created clock a b s) = users s"
  "messages (direct_created clock a b s) = messages s"
  by (simp_all add: direct_created_def createChat_unfold)

lemma direct_created_rows:
  assumes "ids_fresh s"
  shows "map_values (chatMembers (direct_created clock a b s)) =
           map_values (chatMembers s) @
             [\<lparr>cm_id = currentChatMemberId s, cm_chatId = currentChatId s, cm_userId = a,
               joinedAt = clock 1\<rparr>,
              \<lparr>cm_id = currentChatMemberId s + 1, cm_chatId = currentChatId s, cm_userId = b,
               joinedAt = clock 2\<rparr>]"
proof -
  let ?s0 = "s\<lparr>chats := map_set (currentChatId s)
                 (newChat (clock 0) \<lparr>ic_name = None, ic_type = ''direct'', ic_createdBy = a\<rparr> s) (chats s),
              currentChatId := currentChatId s + 1\<rparr>"
  let ?s1 = "addChatMember (clock 1) (currentChatId s) a ?s0"
  have f0: "ids_fresh ?s0"
    using assms by (fastforce simp: ids_fresh_def newChat_def dest: in_map_set)
  have f1: "ids_fresh ?s1" using f0 by (rule ids_fresh_addChatMember)
  have r1: "chatMembers ?s1 = chatMembers s @
      [(currentChatMemberId s,
        \<lparr>cm_id = currentChatMemberId s, cm_chatId = currentChatId s, cm_userId = a,
         joinedAt = clock 1\<rparr>)]"
    using addChatMember_rows[OF f0, of "clock 1" "currentChatId s" a] by simp
  have r2: "chatMembers (addChatMember (clock 2) (currentChatId s) b ?s1) = chatMembers ?s1 @
      [(currentChatMemberId s + 1,
        \<lparr>cm_id = currentChatMemberId s + 1, cm_chatId = currentChatId s, cm_userId = b,
         joinedAt = clock 2\<rparr>)]"
    using addChatMember_rows[OF f1, of "clock 2" "currentChatId s" b] by simp
  have eq: "direct_created clock a b s = addChatMember (clock 2) (currentChatId s) b ?s1"
    by (simp add: direct_created_def createChat_unfold)
  show ?thesis unfolding eq r2 r1 by (simp add: map_values_def)
qed

lemma direct_created_chats:
  assumes "ids_fresh s"
  shows "chats (direct_created clock a b s) =
           chats s @ [(currentChatId s,
              \<lparr>c_id = currentChatId s, c_name = None, c_type = ''direct'', createdBy = a,
               createdAt = clock 0\<rparr>)]"
  using ids_fresh_chat_key[OF assms]
  by (simp add: direct_created_def createChat_unfold map_set_fresh newChat_def)

lemma getChat_direct_created:
  assumes "ids_fresh s"
  shows "getChat c (direct_created clock a b s) =
          (if c = currentChatId s
           then Some \<lparr>c_id = currentChatId s, c_name = None, c_type = ''direct'', createdBy = a,
               createdAt = clock 0\<rparr>
           else getChat c s)"
  by (simp add: direct_created_def createChat_unfold getChat_def map_get_map_set newChat_def)

lemma getChatMembers_direct_created_old:
  assumes "ids_fresh s" "c \<noteq> currentChatId s"
  shows "getChatMembers c (direct_created clock a b s) = getChatMembers c s"
  using assms(2)
  by (simp add: getChatMembers_append_rows[OF direct_created_frame(1) direct_created_rows[OF assms(1)]])

lemma getChatWithMembers_direct_created_old:
  assumes "ids_fresh s" "c \<noteq> currentChatId s"
  shows "getChatWithMembers c (direct_created clock a b s) = getChatWithMembers c s"
proof -
  have "getChatMessages c l (direct_created clock a b s) = getChatMessages c l s" for l
    by (rule getChatMessages_cong) (simp_all add: direct_created_frame)
  then show ?thesis
    using getChat_direct_created[OF assms(1), of c clock a b] assms(2)
      getChatMembers_direct_created_old[OF assms, of clock a b]
    by (simp add: getChatWithMembers_def getChat_def split: option.splits)
qed

lemma getChatMembers_direct_created_new:
  assumes inv: "store_inv s" and ua: "getUser a s = Some usa" and ub: "getUser b s = Some usb"
  shows "getChatMembers (currentChatId s) (direct_created clock a b s) =
          [\<lparr>cm_id = currentChatMemberId s, cm_chatId = currentChatId s, cm_userId = a,
               joinedAt = clock 1, user = usa\<rparr>,
           \<lparr>cm_id = currentChatMemberId s + 1, cm_chatId = currentChatId s, cm_userId = b,
               joinedAt = clock 2, user = usb\<rparr>]"
proof -
  have fresh: "ids_fresh s" using inv by (simp add: store_inv_def)
  have "filter (\<lambda>member. cm_chatId member = currentChatId s) (map_values (chatMembers s)) = []"
    using store_inv_rows_below[OF inv] by (fastforce simp: filter_empty_conv)
  then have old: "getChatMembers (currentChatId s) s = []"
    by (simp add: getChatMembers_def)
  show ?thesis
    using ua ub
    by (simp add: getChatMembers_append_rows[OF direct_created_frame(1) direct_created_rows[OF fresh]]
          old with_user_def getUser_def)
qed

lemma in_getUserChats_iff:
  "v \<in> set (getUserChats u s) \<longleftrightarrow>
     (\<exists>member \<in> set (map_values (chatMembers s)).
        cm_userId member = u \<and> getChatWithMembers (cm_chatId member) s = Some v)"
  by (auto simp: getUserChats_def set_map_filter)

lemma in_getChatMembers_iff:
  "e \<in> set (getChatMembers c s) \<longleftrightarrow>
     (\<exists>member \<in> set (map_values (chatMembers s)). cm_chatId member = c \<and> with_user s member = Some e)"
  by (auto simp: getChatMembers_def set_map_filter)

lemma with_user_userId: "with_user s member = Some e \<Longrightarrow> cm_userId e = cm_userId member"
  by (auto simp: with_user_Some_iff)

text \<open>A chat that matches for \<open>b\<close> in the list of \<open>a\<close> matches for \<open>a\<close> in the list
  of \<open>b\<close>, when \<open>a\<close> is a user.\<close>

lemma match_sym:
  assumes ua: "getUser a s \<noteq> None"
    and v: "v \<in> set (getUserChats a s)" and m: "is_direct_with b v"
  shows "v \<in> set (getUserChats b s) \<and> is_direct_with a v"
proof -
  from v obtain row where row: "row \<in> set (map_values (chatMembers s))" "cm_userId row = a"
    and view: "getChatWithMembers (cm_chatId row) s = Some v"
    by (auto simp: in_getUserChats_iff)
  have mem: "members v = getChatMembers (cm_chatId row) s"
    using view by (rule getChatWithMembers_members)
  from m obtain e where e: "e \<in> set (members v)" "cm_userId e = b"
    by (auto simp: is_direct_with_def list_ex_iff)
  then obtain row' where row': "row' \<in> set (map_values (chatMembers s))"
    "cm_chatId row' = cm_chatId row" "with_user s row' = Some e"
    by (auto simp: mem in_getChatMembers_iff)
  have "cm_userId row' = b" using row'(3) e(2) by (simp add: with_user_userId[symmetric])
  with row' view have 1: "v \<in> set (getUserChats b s)"
    by (auto simp: in_getUserChats_iff)
  from ua row(2) obtain e' where e': "with_user s row = Some e'"
    by (cases "with_user s row") (auto simp: with_user_None_iff)
  then have "e' \<in> set (members v)" "cm_userId e' = a"
    using row by (auto simp: mem in_getChatMembers_iff with_user_userId)
  with m have "is_direct_with a v" by (auto simp: is_direct_with_def list_ex_iff)
  with 1 show ?thesis by simp
qed

lemma find_sorted_le:
  assumes sx: "sorted (map key xs)" and fx: "find P xs = Some x" and y: "y \<in> set xs" "P y"
  shows "key x \<le> key y"
proof -
  from fx obtain i where i: "i < length xs" "xs ! i = x" "\<forall>j<i. \<not> P (xs ! j)"
    by (auto simp: find_Some_iff)
  from y obtain j where j: "j < length xs" "xs ! j = y" by (auto simp: in_set_conv_nth)
  with y(2) i(3) have "i \<le> j" by (meson not_le)
  with sx i j have "map key xs ! i \<le> map key xs ! j"
    by (intro sorted_nth_mono) simp_all
  with i j show ?thesis by simp
qed

lemma find_Some_in: "find P xs = Some x \<Longrightarrow> x \<in> set xs \<and> P x"
  by (auto simp: find_Some_iff)

lemma sorted_getUserChats:
  assumes "store_inv s" shows "sorted (map c_id (getUserChats u s))"
proof -
  have "sorted (map cm_chatId (map_values (chatMembers s)))"
    using assms by (simp add: store_inv_def members_grouped_def)
  then have "sorted (map cm_chatId (filter (\<lambda>member. cm_userId member = u \<and> getChat (cm_chatId member) s \<noteq> None)
                     (map_values (chatMembers s))))"
    by (rule sorted_filter)
  with assms show ?thesis by (simp add: getUserChats_ids store_inv_def)
qed

lemma getUserChats_view:
  assumes "ids_fresh s" "v \<in> set (getUserChats u s)"
  shows "getChatWithMembers (c_id v) s = Some v"
proof -
  from assms(2) obtain row :: ChatMember
    where row: "getChatWithMembers (cm_chatId row) s = Some v"
    by (auto simp: in_getUserChats_iff)
  have "c_id v = cm_chatId row" using assms(1) row by (rule getChatWithMembers_id)
  then show ?thesis using row by simp
qed

text \<open>With both users present, the search from either side returns the same chat.\<close>

lemma find_direct_sym:
  assumes inv: "store_inv s" and ua: "getUser a s \<noteq> None" and ub: "getUser b s \<noteq> None"
    and f: "find (is_direct_with b) (getUserChats a s) = Some v"
  shows "find (is_direct_with a) (getUserChats b s) = Some v"
proof -
  have fresh: "ids_fresh s" using inv by (simp add: store_inv_def)
  from f have v: "v \<in> set (getUserChats a s)" "is_direct_with b v" by (auto dest: find_Some_in)
  with match_sym[OF ua] have v': "v \<in> set (getUserChats b s)" "is_direct_with a v" by auto
  then obtain w where w: "find (is_direct_with a) (getUserChats b s) = Some w"
    by (cases "find (is_direct_with a) (getUserChats b s)") (auto simp: find_None_iff_set)
  then have w': "w \<in> set (getUserChats b s)" "is_direct_with a w" by (auto dest: find_Some_in)
  with match_sym[OF ub] have w'': "w \<in> set (getUserChats a s)" "is_direct_with b w" by auto
  have "c_id v \<le> c_id w"
    using sorted_getUserChats[OF inv] f w'' by (rule find_sorted_le)
  moreover have "c_id w \<le> c_id v"
    using sorted_getUserChats[OF inv] w v' by (rule find_sorted_le)
  ultimately have "c_id v = c_id w" by simp
  with getUserChats_view[OF fresh v(1)] getUserChats_view[OF fresh w'(1)] have "v = w"
    by (metis option.inject)
  with w show ?thesis by simp
qed

lemma find_append_None: "find P xs = None \<Longrightarrow> find P (xs @ ys) = find P ys"
  by (induction xs) (auto split: if_splits)

lemma set_of_two:
  assumes "length xs = 2" "a \<in> set xs" "b \<in> set xs" "a \<noteq> b"
  shows "set xs = {a, b}"
proof -
  from assms(1) obtain x y where "xs = [x, y]"
    by (cases xs; cases "tl xs") auto
  with assms show ?thesis by auto
qed

lemma getChatWithMembers_direct_created_new:
  assumes inv: "store_inv s" and ua: "getUser a s = Some usa" and ub: "getUser b s = Some usb"
  shows "getChatWithMembers (currentChatId s) (direct_created clock a b s) =
           Some (new_direct_view clock a b usa usb s)"
proof -
  have fresh: "ids_fresh s" using inv by (simp add: store_inv_def)
  have "getChatMessages (currentChatId s) l (direct_created clock a b s) =
        getChatMessages (currentChatId s) l s" for l
    by (rule getChatMessages_cong) (simp_all add: direct_created_frame)
  then show ?thesis
    using getChat_direct_created[OF fresh, of "currentChatId s" clock a b]
      getChatMembers_direct_created_new[OF inv ua ub, of clock]
    by (simp add: getChatWithMembers_Some_iff new_direct_view_def)
qed

lemma new_direct_view_matches:
  "is_direct_with a (new_direct_view clock a b usa usb s)"
  "is_direct_with b (new_direct_view clock a b usa usb s)"
  by (simp_all add: is_direct_with_def new_direct_view_def)

lemma getUserChats_direct_created:
  assumes inv: "store_inv s" and ua: "getUser a s = Some usa" and ub: "getUser b s = Some usb"
    and ab: "a \<noteq> b"
  shows "getUserChats a (direct_created clock a b s) =
           getUserChats a s @ [new_direct_view clock a b usa usb s]"
    and "getUserChats b (direct_created clock a b s) =
           getUserChats b s @ [new_direct_view clock a b usa usb s]"
proof -
  let ?s2 = "direct_created clock a b s"
  have fresh: "ids_fresh s" using inv by (simp add: store_inv_def)
  have old: "List.map_filter (\<lambda>member. getChatWithMembers (cm_chatId member) ?s2)
               (filter (\<lambda>member. cm_userId member = x) (map_values (chatMembers s))) =
             getUserChats x s" for x
    unfolding getUserChats_def Let_def
  proof (rule map_filter_cong_set)
    fix member assume "member \<in> set (filter (\<lambda>member. cm_userId member = x) (map_values (chatMembers s)))"
    then have "cm_chatId member \<noteq> currentChatId s"
      using store_inv_rows_below[OF inv, of member] by auto
    then show "getChatWithMembers (cm_chatId member) ?s2 = getChatWithMembers (cm_chatId member) s"
      by (rule getChatWithMembers_direct_created_old[OF fresh])
  qed
  note new = getChatWithMembers_direct_created_new[OF inv ua ub, of clock]
  show "getUserChats a ?s2 = getUserChats a s @ [new_direct_view clock a b usa usb s]"
    using ab old[of a] new
    by (simp add: getUserChats_def[of a ?s2] direct_created_rows[OF fresh] map_filter_append)
  show "getUserChats b ?s2 = getUserChats b s @ [new_direct_view clock a b usa usb s]"
    using ab old[of b] new
    by (simp add: getUserChats_def[of b ?s2] direct_created_rows[OF fresh] map_filter_append)
qed

lemma getChatWithMembers_chat:
  "getChatWithMembers c s = Some v \<Longrightarrow>
   \<exists>chat. getChat c s = Some chat \<and> c_type v = c_type chat \<and> c_id v = c_id chat"
  by (auto simp: getChatWithMembers_Some_iff)

lemma new_direct_view_between:
  "is_between a b (new_direct_view clock a b usa usb s)"
  "length (members (new_direct_view clock a b usa usb s)) = 2"
  by (simp_all add: is_between_def new_direct_view_def)

text \<open>The creating branch adds the new chat to both enumerations and changes no other
  entry of them.\<close>

lemma chats_between_direct_created:
  assumes inv: "store_inv s" and ua: "getUser a s = Some usa" and ub: "getUser b s = Some usb"
  shows "directChatsBetween a b (direct_created clock a b s) =
           directChatsBetween a b s @ [currentChatId s]"
    and "twoMemberDirectChats a b (direct_created clock a b s) =
           twoMemberDirectChats a b s @ [currentChatId s]"
proof -
  let ?s2 = "direct_created clock a b s"
  have fresh: "ids_fresh s" using inv by (simp add: store_inv_def)
  have keys: "map fst (chats ?s2) = map fst (chats s) @ [currentChatId s]"
    by (simp add: direct_created_chats[OF fresh])
  have old: "getChatWithMembers k ?s2 = getChatWithMembers k s" if "k \<in> set (map fst (chats s))" for k
  proof -
    have "k \<in> fst ` set (chats s)" using that by simp
    with ids_fresh_chat_key[OF fresh] have "k \<noteq> currentChatId s" by blast
    then show ?thesis by (rule getChatWithMembers_direct_created_old[OF fresh])
  qed
  note new = getChatWithMembers_direct_created_new[OF inv ua ub, of clock]
  have "filter (\<lambda>k. case getChatWithMembers k ?s2 of None \<Rightarrow> False
                     | Some chat \<Rightarrow> is_between a b chat) (map fst (chats s)) =
        directChatsBetween a b s"
    unfolding directChatsBetween_def by (rule filter_cong[OF refl]) (simp add: old)
  then show "directChatsBetween a b ?s2 = directChatsBetween a b s @ [currentChatId s]"
    by (simp add: directChatsBetween_def[of a b ?s2] keys new new_direct_view_between)
  have "filter (\<lambda>k. case getChatWithMembers k ?s2 of None \<Rightarrow> False
                     | Some chat \<Rightarrow> is_between a b chat \<and> length (members chat) = 2)
          (map fst (chats s)) =
        twoMemberDirectChats a b s"
    unfolding twoMemberDirectChats_def by (rule filter_cong[OF refl]) (simp add: old)
  then show "twoMemberDirectChats a b ?s2 = twoMemberDirectChats a b s @ [currentChatId s]"
    by (simp add: twoMemberDirectChats_def[of a b ?s2] keys new new_direct_view_between)
qed

lemma twoMember_subset:
  "directChatsBetween a b s = [] \<Longrightarrow> twoMemberDirectChats a b s = []"
  by (auto simp: directChatsBetween_def twoMemberDirectChats_def filter_empty_conv
      split: option.splits)

text \<open>The search of the handler succeeds exactly when a direct chat with the two users as
  its only two members exists.\<close>

lemma match_in_twoMember:
  assumes fresh: "ids_fresh s" and ua: "getUser a s \<noteq> None" and ab: "a \<noteq> b"
    and v: "v \<in> set (getUserChats a s)" and m: "is_direct_with b v"
  shows "is_between a b v \<and> length (members v) = 2 \<and>
         c_id v \<in> set (twoMemberDirectChats a b s)"
proof -
  from match_sym[OF ua v m] have m': "is_direct_with a v" by simp
  from m m' have "a \<in> set (map cm_userId (members v))" "b \<in> set (map cm_userId (members v))"
    and len: "length (members v) = 2"
    by (auto simp: is_direct_with_def list_ex_iff)
  with ab have "set (map cm_userId (members v)) = {a, b}" by (intro set_of_two) simp_all
  with m have btw: "is_between a b v" by (simp add: is_between_def is_direct_with_def)
  have view: "getChatWithMembers (c_id v) s = Some v" using fresh v by (rule getUserChats_view)
  then obtain chat where "getChat (c_id v) s = Some chat"
    by (blast dest: getChatWithMembers_chat)
  then have "c_id v \<in> set (map fst (chats s))"
    by (force simp: getChat_def dest: map_get_SomeD)
  with view btw len have "c_id v \<in> set (twoMemberDirectChats a b s)"
    by (simp add: twoMemberDirectChats_def)
  with btw len show ?thesis by simp
qed

lemma twoMember_in_match:
  assumes "k \<in> set (twoMemberDirectChats a b s)"
  shows "\<exists>v \<in> set (getUserChats a s). is_direct_with b v"
proof -
  from assms obtain v where view: "getChatWithMembers k s = Some v"
    and btw: "is_between a b v" and len: "length (members v) = 2"
    by (auto simp: twoMemberDirectChats_def split: option.splits)
  have mem: "members v = getChatMembers k s" using view by (rule getChatWithMembers_members)
  from btw have "a \<in> cm_userId ` set (members v)" by (simp add: is_between_def)
  then obtain e where e: "e \<in> set (members v)" "cm_userId e = a" by blast
  then obtain row where row: "row \<in> set (map_values (chatMembers s))" "cm_chatId row = k"
    "with_user s row = Some e"
    by (auto simp: mem in_getChatMembers_iff)
  have "cm_userId row = a" using row(3) e(2) by (simp add: with_user_userId[symmetric])
  with row view have "v \<in> set (getUserChats a s)" by (auto simp: in_getUserChats_iff)
  moreover have "is_direct_with b v"
  proof -
    from btw have "b \<in> cm_userId ` set (members v)" by (simp add: is_between_def)
    then have "\<exists>member \<in> set (members v). cm_userId member = b" by blast
    with btw len show ?thesis by (simp add: is_between_def is_direct_with_def list_ex_iff)
  qed
  ultimately show ?thesis by blast
qed

text \<open>
  C1, as the spec states it, fails, in two ways. In a new store, where users 1 and 2 do
  not exist, the first call creates chat 1 and the second call, not finding it, creates
  chat 2: the members of chat 1 do not resolve, so the chat is returned with no members
  and the test for exactly two members rejects it. In \<open>dup_store\<close>, which the handlers
  reach, alice and bob exist and chat 1 is a direct chat whose member set is alice and bob,
  with three membership rows; the call does not accept it, creates chat 2, and two direct
  chats with this member set exist afterwards.
\<close>

theorem postChatsDirect_second_chat_counterexample:
  "getUser 1 new_MemStorage = None \<and> getUser 2 new_MemStorage = None \<and>
   chat_id_of (fst (postChatsDirect (\<lambda>i. int i) 1 2 new_MemStorage)) = Some 1 \<and>
   chat_id_of (fst (postChatsDirect (\<lambda>i. int i) 1 2
                      (snd (postChatsDirect (\<lambda>i. int i) 1 2 new_MemStorage)))) = Some 2 \<and>
   map fst (chats (snd (postChatsDirect (\<lambda>i. int i) 1 2
                      (snd (postChatsDirect (\<lambda>i. int i) 1 2 new_MemStorage))))) = [1, 2] \<and>
   getUser 1 dup_store \<noteq> None \<and> getUser 2 dup_store \<noteq> None \<and>
   map (\<lambda>(k, member). (k, cm_chatId member, cm_userId member)) (chatMembers dup_store) =
     [(1, 1, 1), (2, 1, 2), (3, 1, 2)] \<and>
   directChatsBetween 1 2 dup_store = [1] \<and>
   chat_id_of (fst (postChatsDirect (\<lambda>i. 60 + int i) 1 2 dup_store)) = Some 2 \<and>
   directChatsBetween 1 2 (snd (postChatsDirect (\<lambda>i. 60 + int i) 1 2 dup_store)) = [1, 2]"
  by code_simp

lemma reachable_dup_store: "reachable dup_store"
  unfolding dup_store_def users_store_def
  by (intro reachable.intros)

text \<open>
  C1, amended. In a store that satisfies the invariant, for two different user ids that
  both resolve to users: the first find-or-create for \<open>a\<close> and \<open>b\<close> creates a chat
  exactly when no direct chat with \<open>a\<close> and \<open>b\<close> as its only two members exists, and
  otherwise leaves the store as it is. A second call, with the arguments in either order,
  answers with the same chat, hence the same chat id, and leaves the store as the first
  call left it. The chat is a direct chat with exactly two members, \<open>a\<close> and \<open>b\<close>.
  The call adds at most the one new chat to the direct chats whose member set is \<open>a\<close>
  and \<open>b\<close>: when none existed before, exactly one exists afterwards, and when at most one
  two-member direct chat of the pair existed before, exactly one exists afterwards.
\<close>

theorem postChatsDirect_idempotent:
  assumes inv: "store_inv s" and ab: "a \<noteq> b"
    and ua: "getUser a s \<noteq> None" and ub: "getUser b s \<noteq> None"
    and first: "postChatsDirect clock a b s = (r, s1)"
  shows "postChatsDirect clock' a b s1 = (r, s1) \<and>
         postChatsDirect clock' b a s1 = (r, s1) \<and>
         (\<exists>v. r = Inr (Some v) \<and> is_between a b v \<and> length (members v) = 2 \<and>
              c_id v \<in> set (twoMemberDirectChats a b s1)) \<and>
         (twoMemberDirectChats a b s \<noteq> [] \<longrightarrow> s1 = s) \<and>
         (twoMemberDirectChats a b s = [] \<longrightarrow>
            chats s1 = chats s @
              [(currentChatId s,
                \<lparr>c_id = currentChatId s, c_name = None, c_type = ''direct'', createdBy = a,
                 createdAt = clock 0\<rparr>)] \<and>
            twoMemberDirectChats a b s1 = [currentChatId s]) \<and>
         directChatsBetween a b s1 =
           directChatsBetween a b s @
             (if twoMemberDirectChats a b s = [] then [currentChatId s] else []) \<and>
         (directChatsBetween a b s = [] \<longrightarrow> directChatsBetween a b s1 = [currentChatId s]) \<and>
         (length (twoMemberDirectChats a b s) \<le> 1 \<longrightarrow>
            length (twoMemberDirectChats a b s1) = 1)"
proof (cases "find (is_direct_with b) (getUserChats a s)")
  case (Some v)
  have fresh: "ids_fresh s" using inv by (simp add: store_inv_def)
  from Some first have r: "r = Inr (Some v)" and s1: "s1 = s"
    by (simp_all add: postChatsDirect_unfold)
  have again: "postChatsDirect clock' a b s = (r, s)"
    using Some by (simp add: postChatsDirect_unfold r)
  have "find (is_direct_with a) (getUserChats b s) = Some v"
    using inv ua ub Some by (rule find_direct_sym)
  then have swapped: "postChatsDirect clock' b a s = (r, s)"
    by (simp add: postChatsDirect_unfold r)
  from Some have v: "v \<in> set (getUserChats a s)" "is_direct_with b v"
    by (auto dest: find_Some_in)
  note hit = match_in_twoMember[OF fresh ua ab v]
  then have two: "twoMemberDirectChats a b s \<noteq> []" by auto
  then have btw: "directChatsBetween a b s \<noteq> []" by (auto dest: twoMember_subset)
  have one: "length (twoMemberDirectChats a b s) = 1"
    if "length (twoMemberDirectChats a b s) \<le> 1"
    using that two by (cases "twoMemberDirectChats a b s") auto
  from again swapped hit two btw one show ?thesis by (simp add: r s1)
next
  case None
  let ?s2 = "direct_created clock a b s"
  have fresh: "ids_fresh s" using inv by (simp add: store_inv_def)
  from ua ub obtain usa usb where usa: "getUser a s = Some usa" and usb: "getUser b s = Some usb"
    by auto
  let ?v = "new_direct_view clock a b usa usb s"
  have view: "getChatWithMembers (currentChatId s) ?s2 = Some ?v"
    using inv usa usb by (rule getChatWithMembers_direct_created_new)
  from None first have r: "r = Inr (Some ?v)" and s1: "s1 = ?s2"
    by (simp_all add: postChatsDirect_unfold view)
  have "find (is_direct_with b) (getUserChats a ?s2) = Some ?v"
    using None
    by (simp add: getUserChats_direct_created(1)[OF inv usa usb ab] find_append_None
          new_direct_view_matches)
  then have again: "postChatsDirect clock' a b ?s2 = (r, ?s2)"
    by (simp add: postChatsDirect_unfold r)
  have none_b: "find (is_direct_with a) (getUserChats b s) = None"
  proof (cases "find (is_direct_with a) (getUserChats b s)")
    case (Some w)
    with inv ub ua have "find (is_direct_with b) (getUserChats a s) = Some w"
      by (rule find_direct_sym)
    with None show ?thesis by simp
  qed simp
  have "find (is_direct_with a) (getUserChats b ?s2) = Some ?v"
    using none_b
    by (simp add: getUserChats_direct_created(2)[OF inv usa usb ab] find_append_None
          new_direct_view_matches)
  then have swapped: "postChatsDirect clock' b a ?s2 = (r, ?s2)"
    by (simp add: postChatsDirect_unfold r)
  have two: "twoMemberDirectChats a b s = []"
  proof (cases "twoMemberDirectChats a b s")
    case (Cons k ks)
    then have "k \<in> set (twoMemberDirectChats a b s)" by simp
    then have "\<exists>v \<in> set (getUserChats a s). is_direct_with b v" by (rule twoMember_in_match)
    with None show ?thesis by (simp add: find_None_iff_set)
  qed simp
  note after = chats_between_direct_created[OF inv usa usb, of clock]
  have id: "c_id ?v = currentChatId s" by (simp add: new_direct_view_def)
  from again swapped show ?thesis
    by (simp add: r s1 after two id new_direct_view_between direct_created_chats[OF fresh])
qed

lemma store_inv_users_store: "store_inv users_store"
  unfolding users_store_def by (intro store_inv_postUsers store_inv_new)

lemma demo_store_users_store:
  "demo_store = snd (postChatsDirect (\<lambda>i. 30 + int i) 1 2 users_store)"
  by (simp add: demo_store_def users_store_def Let_def)

theorem postChatsDirect_idempotent_witness:
  "store_inv users_store \<and> getUser 1 users_store = Some alice \<and>
   getUser 2 users_store = Some bob \<and>
   twoMemberDirectChats 1 2 users_store = [] \<and> directChatsBetween 1 2 users_store = [] \<and>
   snd (postChatsDirect (\<lambda>i. 30 + int i) 1 2 users_store) = demo_store \<and>
   chat_id_of (fst (postChatsDirect (\<lambda>i. 30 + int i) 1 2 users_store)) = Some 1 \<and>
   postChatsDirect (\<lambda>i. 60) 1 2 demo_store =
     (fst (postChatsDirect (\<lambda>i. 30 + int i) 1 2 users_store), demo_store) \<and>
   postChatsDirect (\<lambda>i. 60) 2 1 demo_store =
     (fst (postChatsDirect (\<lambda>i. 30 + int i) 1 2 users_store), demo_store) \<and>
   twoMemberDirectChats 1 2 demo_store = [1] \<and> directChatsBetween 1 2 demo_store = [1] \<and>
   store_inv demo_store \<and>
   postChatsDirect (\<lambda>i. 90) 2 1 (snd (postChatsDirect (\<lambda>i. 60) 1 2 demo_store)) =
     (fst (postChatsDirect (\<lambda>i. 60) 1 2 demo_store), demo_store)"
proof -
  have u: "getUser 1 users_store = Some alice" "getUser 2 users_store = Some bob"
    unfolding alice_def bob_def by code_simp+
  have none: "twoMemberDirectChats 1 2 users_store = []" "directChatsBetween 1 2 users_store = []"
    by code_simp+
  have k: "currentChatId users_store = 1" by code_simp
  have cid: "chat_id_of (fst (postChatsDirect (\<lambda>i. 30 + int i) 1 2 users_store)) = Some 1"
    by code_simp
  have run: "postChatsDirect (\<lambda>i. 30 + int i) 1 2 users_store =
      (fst (postChatsDirect (\<lambda>i. 30 + int i) 1 2 users_store), demo_store)"
    by (simp add: demo_store_users_store)
  have ne: "(1::int) \<noteq> 2" "getUser 1 users_store \<noteq> None" "getUser 2 users_store \<noteq> None"
    using u by simp_all
  note h = postChatsDirect_idempotent[OF store_inv_users_store ne run, of "\<lambda>i. 60"]
  from h have second: "postChatsDirect (\<lambda>i. 60) 1 2 demo_store =
     (fst (postChatsDirect (\<lambda>i. 30 + int i) 1 2 users_store), demo_store)"
    and swapped: "postChatsDirect (\<lambda>i. 60) 2 1 demo_store =
     (fst (postChatsDirect (\<lambda>i. 30 + int i) 1 2 users_store), demo_store)"
    by blast+
  from h none k have two: "twoMemberDirectChats 1 2 demo_store = [1]"
    and btw: "directChatsBetween 1 2 demo_store = [1]"
    by simp_all
  have ne': "getUser 1 demo_store \<noteq> None" "getUser 2 demo_store \<noteq> None"
    by (simp_all add: getUser_def map_get_def demo_store_eq)
  have run': "postChatsDirect (\<lambda>i. 60) 1 2 demo_store =
      (fst (postChatsDirect (\<lambda>i. 60) 1 2 demo_store), snd (postChatsDirect (\<lambda>i. 60) 1 2 demo_store))"
    by simp
  note h' = postChatsDirect_idempotent[OF store_inv_demo ne(1) ne' run', of "\<lambda>i. 90"]
  from h' two have same: "snd (postChatsDirect (\<lambda>i. 60) 1 2 demo_store) = demo_store" by simp
  from h' have "postChatsDirect (\<lambda>i. 90) 2 1 (snd (postChatsDirect (\<lambda>i. 60) 1 2 demo_store)) =
     (fst (postChatsDirect (\<lambda>i. 60) 1 2 demo_store), snd (postChatsDirect (\<lambda>i. 60) 1 2 demo_store))"
    by blast
  then have third: "postChatsDirect (\<lambda>i. 90) 2 1 (snd (postChatsDirect (\<lambda>i. 60) 1 2 demo_store)) =
     (fst (postChatsDirect (\<lambda>i. 60) 1 2 demo_store), demo_store)"
    using same by simp
  from u none cid second swapped two btw third store_inv_users_store store_inv_demo
    demo_store_users_store
  show ?thesis by simp
qed

section \<open>Reading the messages of a chat\<close>

text \<open>
  C2. The spec asks for the newest \<open>limit\<close> messages, oldest first, with messages of
  equal sent time in insertion order. \<open>MemStorage.getChatMessages\<close> sorts by descending
  time with a stable sort, cuts, and reverses, so messages of equal time come out in the
  reverse of their insertion order, and a cut inside such a group keeps the messages
  inserted first. In \<open>tie_store\<close>, where hi and then hey were posted in the same
  millisecond, the result is hey before hi, and with limit 1 it is hi.
\<close>

theorem getChatMessages_tie_order:
  "map (\<lambda>(k, m). (k, content m, sentAt m)) (messages tie_store) =
     [(1, ''hi'', 100), (2, ''hey'', 100)] \<and>
   map content (getChatMessages 1 None tie_store) = [''hey'', ''hi''] \<and>
   map content (getChatMessages 1 (Some 1) tie_store) = [''hi'']"
  by code_simp

text \<open>When the sent times of the chat's messages increase strictly in insertion order,
  the result is as the spec says: the last \<open>k\<close> messages of the chat in insertion order,
  each joined to its sender, those whose sender does not resolve left out.\<close>

lemma sort_key_snoc_least:
  assumes "\<forall>y \<in> set xs. f x < f y"
  shows "sort_key f (xs @ [x]) = x # sort_key f xs"
  using assms
proof (induction xs)
  case Nil
  show ?case by simp
next
  case (Cons y ys)
  then have "sort_key f (ys @ [x]) = x # sort_key f ys" and "\<not> f y \<le> f x" by auto
  then show ?case by simp
qed

lemma sort_key_desc_increasing:
  "sorted_wrt (<) (map sentAt xs) \<Longrightarrow> sort_key (\<lambda>message. - sentAt message) xs = rev xs"
proof (induction xs rule: rev_induct)
  case Nil
  show ?case by simp
next
  case (snoc x xs)
  then have "sorted_wrt (<) (map sentAt xs)" and "\<forall>y \<in> set xs. sentAt y < sentAt x"
    by (auto simp: sorted_wrt_append)
  with snoc.IH show ?case by (simp add: sort_key_snoc_least)
qed

lemma slice0_nonneg: "0 \<le> k \<Longrightarrow> slice0 k xs = take (nat k) xs"
  by (simp add: slice0_def Let_def min_def)

lemma getChatMessages_increasing_times:
  assumes "sorted_wrt (<) (map sentAt (filter (\<lambda>message. m_chatId message = c) (map_values (messages s))))"
    and "0 \<le> k"
  shows "getChatMessages c (Some k) s =
           List.map_filter (with_sender s)
             (drop (length (filter (\<lambda>message. m_chatId message = c) (map_values (messages s))) - nat k)
                (filter (\<lambda>message. m_chatId message = c) (map_values (messages s))))"
  using assms
  by (simp add: getChatMessages_def sort_key_desc_increasing slice0_nonneg take_rev)

text \<open>The database path orders ascending and then cuts, so it keeps the oldest
  messages where the in-memory path keeps the newest.\<close>

lemma db_getChatMessages_oldest:
  "map content (getChatMessages 1 (Some 2) three_store) = [''b'', ''c''] \<and>
   map content (db_getChatMessages 1 2 (map_values (messages three_store))
                  (map_values (users three_store))) = [''a'', ''b'']"
  by code_simp

end
